theory Spec2Isabelle
  imports Main "HOL-Library.Word"
begin

unbundle bit_operations_syntax

section \<open>JavaScript values and arrays\<close>

text \<open>
  The tool is a Node.js class working on plain arrays of numbers. An array element is a
  number, \<open>NaN\<close> (what \<open>parseInt\<close> gives on text without digits) or \<open>undefined\<close>
  (a hole, or a read past the end). All numbers the tool handles are integers.
  Strings are lists of characters with code units below 256.
\<close>

type_synonym byte = "8 word"

datatype jsval = Num int | NaN | Undefined

text \<open>\<open>ToInt32\<close>, applied by the bitwise operators to each operand.\<close>

definition to_int32 :: "jsval \<Rightarrow> 32 word" where
  "to_int32 v = (case v of Num n \<Rightarrow> word_of_int n | NaN \<Rightarrow> 0 | Undefined \<Rightarrow> 0)"

text \<open>The operators \<open>^\<close> and \<open>&\<close>: the result is a signed 32-bit number.\<close>

definition js_xor :: "jsval \<Rightarrow> jsval \<Rightarrow> jsval" where
  "js_xor a b = Num (sint (to_int32 a XOR to_int32 b))"

definition js_and :: "jsval \<Rightarrow> jsval \<Rightarrow> jsval" where
  "js_and a b = Num (sint (to_int32 a AND to_int32 b))"

text \<open>Strict equality \<open>===\<close>: \<open>NaN\<close> differs from everything, itself included.\<close>

definition js_seq :: "jsval \<Rightarrow> jsval \<Rightarrow> bool" where
  "js_seq a b = (a \<noteq> NaN \<and> a = b)"

text \<open>
  The conversion of one array element when a \<open>Buffer\<close> or \<open>Uint8Array\<close> is built from
  an array: the number modulo 256, and 0 for \<open>NaN\<close>, \<open>undefined\<close> and holes.
\<close>

definition to_uint8 :: "jsval \<Rightarrow> byte" where
  "to_uint8 v = (case v of Num n \<Rightarrow> word_of_int n | NaN \<Rightarrow> 0 | Undefined \<Rightarrow> 0)"

definition to_buffer :: "jsval list \<Rightarrow> byte list" where
  "to_buffer xs = map to_uint8 xs"

text \<open>\<open>Array.from(buffer)\<close>: every byte becomes a number between 0 and 255.\<close>

definition from_buffer :: "byte list \<Rightarrow> jsval list" where
  "from_buffer bs = map (\<lambda>b. Num (uint b)) bs"

text \<open>Reading \<open>a[i]\<close>: \<open>undefined\<close> past the end.\<close>

definition js_get :: "jsval list \<Rightarrow> nat \<Rightarrow> jsval" where
  "js_get xs i = (if i < length xs then xs ! i else Undefined)"

text \<open>Writing \<open>a[i] = v\<close> on a plain array: a write past the end extends the array.\<close>

definition js_set :: "jsval list \<Rightarrow> nat \<Rightarrow> jsval \<Rightarrow> jsval list" where
  "js_set xs i v =
     (if i < length xs then xs[i := v]
      else xs @ replicate (i - length xs) Undefined @ [v])"

text \<open>\<open>a.slice(from, to)\<close> for \<open>0 \<le> from \<le> to\<close>.\<close>

definition slice :: "nat \<Rightarrow> nat \<Rightarrow> 'a list \<Rightarrow> 'a list" where
  "slice from to xs = take (to - from) (drop from xs)"

text \<open>The loops \<open>for (i = 0; i < vs.length; i++) a[off + i] = vs[i]\<close>.\<close>

fun js_set_block :: "jsval list \<Rightarrow> nat \<Rightarrow> jsval list \<Rightarrow> jsval list" where
  "js_set_block xs off [] = xs"
| "js_set_block xs off (v # vs) = js_set_block (js_set xs off v) (Suc off) vs"

section \<open>parseInt with radix 16\<close>

definition is_js_space :: "char \<Rightarrow> bool" where
  "is_js_space c = ((of_char c :: nat) \<in> {9, 10, 11, 12, 13, 32, 160})"

definition hex_digit :: "char \<Rightarrow> nat option" where
  "hex_digit c =
     (let n = (of_char c :: nat) in
      if 48 \<le> n \<and> n \<le> 57 then Some (n - 48)
      else if 65 \<le> n \<and> n \<le> 70 then Some (n - 55)
      else if 97 \<le> n \<and> n \<le> 102 then Some (n - 87)
      else None)"

text \<open>The digits of the longest prefix made of hexadecimal digits.\<close>

fun hex_prefix :: "string \<Rightarrow> nat list" where
  "hex_prefix [] = []"
| "hex_prefix (c # cs) = (case hex_digit c of None \<Rightarrow> [] | Some d \<Rightarrow> d # hex_prefix cs)"

definition hex_value :: "nat list \<Rightarrow> nat" where
  "hex_value ds = foldl (\<lambda>a d. 16 * a + d) 0 ds"

text \<open>
  \<open>parseInt(s, 16)\<close>: leading white space is dropped, then one sign, then a prefix
  \<open>0x\<close> or \<open>0X\<close>; the longest run of hexadecimal digits that follows is the value, and
  \<open>NaN\<close> when that run is empty. Whatever follows the digits is ignored.
\<close>

definition parseInt16 :: "string \<Rightarrow> jsval" where
  "parseInt16 s =
     (let s1 = dropWhile is_js_space s;
          neg = (case s1 of [] \<Rightarrow> False | c # _ \<Rightarrow> c = CHR ''-'');
          s2 = (case s1 of [] \<Rightarrow> s1
                | c # r \<Rightarrow> if c = CHR ''-'' \<or> c = CHR ''+'' then r else s1);
          s3 = (case s2 of
                  a # b # r \<Rightarrow>
                    if a = CHR ''0'' \<and> (b = CHR ''x'' \<or> b = CHR ''X'') then r else s2
                | _ \<Rightarrow> s2);
          ds = hex_prefix s3
      in if ds = [] then NaN
         else Num ((if neg then - 1 else 1) * int (hex_value ds)))"

text \<open>
  The loops \<open>for (i = 0; i < s.length; i += 2) out.push(parseInt(s.substr(i, 2), 16))\<close>
  of \<open>parseCustomUID\<close> and \<open>generateFresh\<close>.
\<close>

fun parse_pairs :: "string \<Rightarrow> jsval list" where
  "parse_pairs [] = []"
| "parse_pairs [a] = [parseInt16 [a]]"
| "parse_pairs (a # b # r) = parseInt16 [a, b] # parse_pairs r"

section \<open>Errors\<close>

text \<open>
  Every \<open>throw\<close> of the tool is one constructor. In a text file: the first line
  lacks the marker (\<open>NotFlipperFile\<close>), the pages do not give 540 bytes
  (\<open>BadNfcSize\<close>, with the number of bytes found), the file cannot be read
  (\<open>NfcReadFailed\<close>); \<open>parseNFCFile\<close> throws each of them again as a parse
  error (\<open>NfcParse\<close>). \<open>KeysNotLoaded\<close>: no master keys. \<open>NoSuchFile\<close>: a binary
  template cannot be read. \<open>BadUidLength\<close>: the custom UID has not 14 characters.
  \<open>BadIdLength\<close>: the character id has not 16 characters. \<open>BadHmac\<close>: the oracle
  rejects the signature of a template. \<open>OracleThrew\<close>: an exception of the external
  library. \<open>LogTypeError\<close>: \<open>toString\<close> called on \<open>undefined\<close> by the printing
  that follows the write.
\<close>

datatype nfc_error = NotFlipperFile | BadNfcSize nat | NfcReadFailed

datatype error =
    KeysNotLoaded
  | NoSuchFile
  | NfcParse nfc_error
  | BadUidLength
  | BadIdLength
  | BadHmac
  | OracleThrew
  | LogTypeError

section \<open>Field engine\<close>

text \<open>\<open>parseCustomUID\<close>: only the length of the text is checked.\<close>

definition parseCustomUID :: "string \<Rightarrow> error + jsval list" where
  "parseCustomUID uidHex =
     (if length uidHex \<noteq> 14 then Inl BadUidLength else Inr (parse_pairs uidHex))"

definition calculateBCC0 :: "jsval list \<Rightarrow> jsval" where
  "calculateBCC0 uid =
     js_xor (js_xor (js_xor (js_get uid 0) (js_get uid 1)) (js_get uid 2)) (Num 0x88)"

definition calculatePWD :: "jsval list \<Rightarrow> jsval list" where
  "calculatePWD packedUID =
     (let uid7 = [js_get packedUID 0, js_get packedUID 1, js_get packedUID 2,
                  js_get packedUID 4, js_get packedUID 5, js_get packedUID 6,
                  js_get packedUID 7]
      in [js_and (js_xor (js_xor (Num 0xAA) (js_get uid7 1)) (js_get uid7 3)) (Num 0xFF),
          js_and (js_xor (js_xor (Num 0x55) (js_get uid7 2)) (js_get uid7 4)) (Num 0xFF),
          js_and (js_xor (js_xor (Num 0xAA) (js_get uid7 3)) (js_get uid7 5)) (Num 0xFF),
          js_and (js_xor (js_xor (Num 0x55) (js_get uid7 4)) (js_get uid7 6)) (Num 0xFF)])"

section \<open>The file system and the external oracle\<close>

text \<open>
  The file system maps a path to the bytes of the file there. Writing a file is taken to
  succeed. Console output is not modelled.
\<close>

type_synonym filesys = "string \<Rightarrow> byte list option"

text \<open>
  The keyed transform of the external library is a parameter of every operation:
  \<open>unpack\<close> gives the verdict on the signature and the logical image, \<open>pack\<close> gives the
  packed image, both as plain arrays; \<open>None\<close> is an exception thrown by the library.
  The first argument is the tool's \<open>keys\<close> field, \<open>None\<close> while no keys are loaded.
  Both are functions of their arguments: they leave the arrays they are given as they are.
\<close>

record 'k maboii =
  unpack :: "'k option \<Rightarrow> jsval list \<Rightarrow> (bool \<times> jsval list) option"
  pack :: "'k option \<Rightarrow> jsval list \<Rightarrow> jsval list option"

section \<open>Format adapters\<close>

text \<open>
  \<open>readFileSync(path, 'utf8')\<close>: one character per byte. A multi-byte UTF-8 sequence
  stays as its bytes, all of them 128 or more; the parser below only looks for ASCII
  characters, which no such sequence contains.
\<close>

definition bytes_to_text :: "byte list \<Rightarrow> string" where
  "bytes_to_text bs = map (\<lambda>b. char_of (unat b)) bs"

text \<open>\<open>s.split(d)\<close> for a one-character separator: never an empty list.\<close>

fun split_on :: "char \<Rightarrow> string \<Rightarrow> string list" where
  "split_on d [] = [[]]"
| "split_on d (c # cs) =
     (if c = d then [] # split_on d cs
      else (case split_on d cs of [] \<Rightarrow> [[c]] | l # ls \<Rightarrow> (c # l) # ls))"

definition starts_with :: "string \<Rightarrow> string \<Rightarrow> bool" where
  "starts_with s p = (take (length p) s = p)"

fun includes_str :: "string \<Rightarrow> string \<Rightarrow> bool" where
  "includes_str [] p = (p = [])"
| "includes_str (c # cs) p = (starts_with (c # cs) p \<or> includes_str cs p)"

definition is_digit :: "char \<Rightarrow> bool" where
  "is_digit c = (48 \<le> (of_char c :: nat) \<and> (of_char c :: nat) \<le> 57)"

definition is_hex :: "char \<Rightarrow> bool" where
  "is_hex c = (hex_digit c \<noteq> None)"

text \<open>
  One attempt of \<open>/Page \d+: ([0-9A-F]{2}) ([0-9A-F]{2}) ([0-9A-F]{2}) ([0-9A-F]{2})/i\<close>
  at the start of \<open>s\<close>, giving the four groups. The digits are taken greedily; giving
  one back never helps, since a colon must follow them.
\<close>

definition match_page_here :: "string \<Rightarrow> string list option" where
  "match_page_here s =
     (if 5 \<le> length s
         \<and> s ! 0 \<in> set ''Pp'' \<and> s ! 1 \<in> set ''Aa'' \<and> s ! 2 \<in> set ''Gg''
         \<and> s ! 3 \<in> set ''Ee'' \<and> s ! 4 = CHR '' ''
         \<and> takeWhile is_digit (drop 5 s) \<noteq> []
      then
        (let t = dropWhile is_digit (drop 5 s) in
         if 13 \<le> length t
            \<and> t ! 0 = CHR '':'' \<and> t ! 1 = CHR '' ''
            \<and> is_hex (t ! 2) \<and> is_hex (t ! 3) \<and> t ! 4 = CHR '' ''
            \<and> is_hex (t ! 5) \<and> is_hex (t ! 6) \<and> t ! 7 = CHR '' ''
            \<and> is_hex (t ! 8) \<and> is_hex (t ! 9) \<and> t ! 10 = CHR '' ''
            \<and> is_hex (t ! 11) \<and> is_hex (t ! 12)
         then Some [[t ! 2, t ! 3], [t ! 5, t ! 6], [t ! 8, t ! 9], [t ! 11, t ! 12]]
         else None)
      else None)"

text \<open>\<open>line.match(...)\<close>: the pattern is not anchored, the leftmost match wins.\<close>

fun match_page :: "string \<Rightarrow> string list option" where
  "match_page [] = match_page_here []"
| "match_page (c # cs) =
     (case match_page_here (c # cs) of Some m \<Rightarrow> Some m | None \<Rightarrow> match_page cs)"

text \<open>
  The loop over the lines: a line that starts with \<open>Page\<close> and a blank and matches
  the pattern pushes four numbers; every other line pushes nothing.
\<close>

fun page_bytes :: "string list \<Rightarrow> jsval list" where
  "page_bytes [] = []"
| "page_bytes (line # ls) =
     (if starts_with line ''Page ''
      then (case match_page line of Some groups \<Rightarrow> map parseInt16 groups | None \<Rightarrow> [])
      else [])
     @ page_bytes ls"

text \<open>The body of \<open>parseNFCFile\<close> once the file is read.\<close>

definition parseNFCContent :: "string \<Rightarrow> nfc_error + byte list" where
  "parseNFCContent content =
     (case split_on CHR 0x0A content of
        [] \<Rightarrow> Inl NfcReadFailed
      | first # rest \<Rightarrow>
          if \<not> includes_str first ''Flipper NFC device'' then Inl NotFlipperFile
          else
            (let pages = page_bytes (first # rest) in
             if length pages \<noteq> 540 then Inl (BadNfcSize (length pages))
             else Inr (to_buffer pages)))"

text \<open>\<open>parseNFCFile\<close>: every failure is thrown again as a parse error.\<close>

definition parseNFCFile :: "filesys \<Rightarrow> string \<Rightarrow> error + byte list" where
  "parseNFCFile fs filePath =
     (case fs filePath of
        None \<Rightarrow> Inl (NfcParse NfcReadFailed)
      | Some bytes \<Rightarrow>
          (case parseNFCContent (bytes_to_text bytes) of
             Inl e \<Rightarrow> Inl (NfcParse e)
           | Inr img \<Rightarrow> Inr img))"

text \<open>\<open>toLowerCase\<close> on code units below 256.\<close>

definition to_lower :: "char \<Rightarrow> char" where
  "to_lower c =
     (let n = (of_char c :: nat) in
      if (65 \<le> n \<and> n \<le> 90) \<or> (192 \<le> n \<and> n \<le> 222 \<and> n \<noteq> 215)
      then char_of (n + 32) else c)"

text \<open>\<open>filePath.toLowerCase().split('.').pop()\<close>.\<close>

definition file_ext :: "string \<Rightarrow> string" where
  "file_ext filePath = last (split_on CHR ''.'' (map to_lower filePath))"

definition readTemplateFile :: "filesys \<Rightarrow> string \<Rightarrow> error + byte list" where
  "readTemplateFile fs filePath =
     (if file_ext filePath = ''nfc'' then parseNFCFile fs filePath
      else (case fs filePath of None \<Rightarrow> Inl NoSuchFile | Some bytes \<Rightarrow> Inr bytes))"

section \<open>Validator\<close>

fun hex_of_nat :: "nat \<Rightarrow> string" where
  "hex_of_nat n =
     (if n < 16 then [''0123456789abcdef'' ! n]
      else hex_of_nat (n div 16) @ [''0123456789abcdef'' ! (n mod 16)])"

text \<open>
  \<open>b.toString(16).padStart(2, '0')\<close>. On \<open>undefined\<close> the call throws a TypeError:
  the callers test for \<open>undefined\<close> before they render.
\<close>

definition js_hex2 :: "jsval \<Rightarrow> string" where
  "js_hex2 v =
     (let s = (case v of
                 Num n \<Rightarrow> if n < 0 then CHR ''-'' # hex_of_nat (nat (- n)) else hex_of_nat (nat n)
               | NaN \<Rightarrow> ''NaN''
               | Undefined \<Rightarrow> [])
      in replicate (2 - length s) CHR ''0'' @ s)"

fun join :: "string \<Rightarrow> string list \<Rightarrow> string" where
  "join sep [] = []"
| "join sep [s] = s"
| "join sep (s # t # ss) = s @ sep @ join sep (t # ss)"

text \<open>\<open>a || b\<close>: \<open>a\<close> when it is truthy (a number other than 0), else \<open>b\<close>.\<close>

definition js_or :: "jsval \<Rightarrow> jsval \<Rightarrow> jsval" where
  "js_or a b = (case a of Num n \<Rightarrow> if n = 0 then b else a | NaN \<Rightarrow> b | Undefined \<Rightarrow> b)"

record report =
  valid :: bool
  uid :: string
  amiiboId :: string
  hmacValid :: bool
  pos8Valid :: bool
  pwdValid :: bool
  packValid :: bool

text \<open>
  \<open>validateBin\<close>: \<open>None\<close> is the return value \<open>false\<close>. Every exception is caught
  and gives \<open>false\<close> too.
\<close>

definition validateBin :: "'k maboii \<Rightarrow> 'k option \<Rightarrow> filesys \<Rightarrow> string \<Rightarrow> report option" where
  "validateBin orc keys fs filePath =
     (case fs filePath of
        None \<Rightarrow> None
      | Some _ \<Rightarrow>
     (case readTemplateFile fs filePath of
        Inl _ \<Rightarrow> None
      | Inr fileData \<Rightarrow>
     if length fileData \<noteq> 540 then None
     else
       (let dataArray = from_buffer fileData in
        case unpack orc keys dataArray of
          None \<Rightarrow> None
        | Some (result, unpacked) \<Rightarrow>
        if \<not> result then None
        else
          (let uid = slice 0 8 dataArray;
               pos8Expected = js_xor (js_xor (js_xor (js_get uid 4) (js_get uid 5))
                                       (js_get uid 6)) (js_get uid 7);
               pos8Actual = js_or (js_get uid 8) (js_get dataArray 8);
               pos8Valid = js_seq pos8Expected pos8Actual;
               amiiboId = slice 84 92 dataArray;
               pwd = slice 532 536 dataArray;
               pack = slice 536 538 dataArray;
               uid7 = [js_get uid 0, js_get uid 1, js_get uid 2, js_get uid 4,
                       js_get uid 5, js_get uid 6, js_get uid 7];
               expectedPwd =
                 [js_and (js_xor (js_xor (Num 0xAA) (js_get uid7 1)) (js_get uid7 3)) (Num 0xFF),
                  js_and (js_xor (js_xor (Num 0x55) (js_get uid7 2)) (js_get uid7 4)) (Num 0xFF),
                  js_and (js_xor (js_xor (Num 0xAA) (js_get uid7 3)) (js_get uid7 5)) (Num 0xFF),
                  js_and (js_xor (js_xor (Num 0x55) (js_get uid7 4)) (js_get uid7 6)) (Num 0xFF)];
               pwdValid = list_all (\<lambda>i. js_seq (pwd ! i) (js_get expectedPwd i)) [0..<length pwd];
               packValid = (js_seq (js_get pack 0) (Num 0x80) \<and> js_seq (js_get pack 1) (Num 0x80));
               isValid = (result \<and> pos8Valid \<and> pwdValid \<and> packValid)
           in if Undefined \<in> set (uid @ [pos8Actual] @ amiiboId @ pwd @ pack) then None
              else Some \<lparr>valid = isValid,
                         uid = join '' '' (map js_hex2 uid),
                         amiiboId = concat (map js_hex2 amiiboId),
                         hmacValid = result,
                         pos8Valid = pos8Valid,
                         pwdValid = pwdValid,
                         packValid = packValid\<rparr>))))"

text \<open>
  \<open>validateFiles\<close> returns the list of entries; the three numbers are those of the
  summary it prints.
\<close>

record batch =
  results :: "(string \<times> report option) list"
  validFiles :: nat
  invalidFiles :: nat
  totalFiles :: nat

definition validateFiles ::
  "'k maboii \<Rightarrow> 'k option \<Rightarrow> filesys \<Rightarrow> string list \<Rightarrow> error + batch" where
  "validateFiles orc keys fs filePaths =
     (if keys = None then Inl KeysNotLoaded
      else
        (let results = map (\<lambda>filePath. (filePath, validateBin orc keys fs filePath)) filePaths;
             validFiles = length (filter (\<lambda>r. case snd r of None \<Rightarrow> False | Some rep \<Rightarrow> valid rep) results);
             invalidFiles = length results - validFiles
         in Inr \<lparr>results = results, validFiles = validFiles,
                 invalidFiles = invalidFiles, totalFiles = length results\<rparr>))"

section \<open>Transformation orchestrator\<close>

text \<open>
  \<open>generateRandomUID\<close>: \<open>rnd i\<close> is byte \<open>i\<close> of the six bytes that
  \<open>crypto.randomBytes(6)\<close> returns.
\<close>

definition generateRandomUID :: "(nat \<Rightarrow> byte) \<Rightarrow> jsval list" where
  "generateRandomUID rnd = Num 0x04 # map (\<lambda>i. Num (uint (rnd (i - 1)))) [1..<7]"

text \<open>
  \<open>customUID ? this.parseCustomUID(customUID) : this.generateRandomUID()\<close>:
  \<open>null\<close> and the empty string are both falsy.
\<close>

definition chooseUID :: "(nat \<Rightarrow> byte) \<Rightarrow> string option \<Rightarrow> error + jsval list" where
  "chooseUID rnd customUID =
     (case customUID of
        None \<Rightarrow> Inr (generateRandomUID rnd)
      | Some uidHex \<Rightarrow>
          if uidHex = [] then Inr (generateRandomUID rnd) else parseCustomUID uidHex)"

text \<open>The eight writes at 468 to 475 of the logical image.\<close>

definition setUID :: "jsval list \<Rightarrow> jsval list \<Rightarrow> jsval \<Rightarrow> jsval list" where
  "setUID unpackedData newUID bcc0 =
     js_set_block unpackedData 468
       [js_get newUID 0, js_get newUID 1, js_get newUID 2, bcc0,
        js_get newUID 3, js_get newUID 4, js_get newUID 5, js_get newUID 6]"

text \<open>The writes at 532 to 537 of the packed image.\<close>

definition setPwdPack :: "jsval list \<Rightarrow> jsval list \<Rightarrow> jsval list" where
  "setPwdPack packedData pwd =
     js_set_block packedData 532
       [js_get pwd 0, js_get pwd 1, js_get pwd 2, js_get pwd 3, Num 0x80, Num 0x80]"

definition fixPosition8 :: "jsval list \<Rightarrow> jsval list" where
  "fixPosition8 packedData =
     js_set packedData 8
       (js_xor (js_xor (js_xor (js_get packedData 4) (js_get packedData 5))
                 (js_get packedData 6)) (js_get packedData 7))"

record outcome =
  out_uid :: "jsval list"
  out_pwd :: "jsval list"
  out_amiiboId :: string
  outputPath :: string

text \<open>
  \<open>changeUID\<close> returns what the method returns or throws, and the file system after
  it. After the write the method prints the first eight bytes; an \<open>undefined\<close> among
  them throws a TypeError there, with the file already written. The warning of the
  self-validation that follows is console output only.
\<close>

definition changeUID ::
  "'k maboii \<Rightarrow> 'k option \<Rightarrow> (nat \<Rightarrow> byte) \<Rightarrow> filesys \<Rightarrow> string \<Rightarrow> string \<Rightarrow> string option
     \<Rightarrow> (error + outcome) \<times> filesys" where
  "changeUID orc keys rnd fs templatePath outPath customUID =
     (if keys = None then (Inl KeysNotLoaded, fs)
      else
     (case readTemplateFile fs templatePath of
        Inl e \<Rightarrow> (Inl e, fs)
      | Inr fileData \<Rightarrow>
     (let templateData = from_buffer fileData in
      case unpack orc keys templateData of
        None \<Rightarrow> (Inl OracleThrew, fs)
      | Some (result, unpackedData) \<Rightarrow>
      if \<not> result then (Inl BadHmac, fs)
      else
     (let originalAmiiboID = slice 84 92 templateData in
      case chooseUID rnd customUID of
        Inl e \<Rightarrow> (Inl e, fs)
      | Inr newUID \<Rightarrow>
     (let bcc0 = calculateBCC0 newUID;
          unpackedData = setUID unpackedData newUID bcc0
      in
      case pack orc keys unpackedData of
        None \<Rightarrow> (Inl OracleThrew, fs)
      | Some packed \<Rightarrow>
     (let packedData = fixPosition8 packed;
          packedData = js_set_block packedData 84 (map (js_get originalAmiiboID) [0..<8]);
          pwd = calculatePWD packedData;
          packedData = setPwdPack packedData pwd;
          fs' = fs(outPath \<mapsto> to_buffer packedData)
      in if Undefined \<in> set (slice 0 8 packedData) then (Inl LogTypeError, fs')
         else (Inr \<lparr>out_uid = slice 0 8 packedData,
                     out_pwd = pwd,
                     out_amiiboId = concat (map js_hex2 originalAmiiboID),
                     outputPath = outPath\<rparr>, fs')))))))"

definition magicBytes1 :: "jsval list" where
  "magicBytes1 = map Num [0x48, 0x0f, 0xe0, 0xf1, 0x10, 0xff, 0xee, 0xa5]"

definition magicBytes2 :: "jsval list" where
  "magicBytes2 = map Num [0x01, 0x00, 0x0f, 0xbf, 0x00, 0x00, 0x00, 0x04,
                          0x5f, 0x00, 0x00, 0x00, 0x4e, 0xdb, 0xf1, 0x28,
                          0x80, 0x80, 0x00, 0x00]"

definition packedMagicBytes :: "jsval list" where
  "packedMagicBytes = map Num [0x48, 0x0f, 0xe0, 0xf1, 0x10, 0xff, 0xee, 0xa5]"

text \<open>
  The logical image \<open>generateFresh\<close> hands to \<open>pack\<close>: 540 zeros, then the UID block,
  the two magic blocks and the bytes of the character id.
\<close>

definition freshUnpacked :: "jsval list \<Rightarrow> string \<Rightarrow> jsval list" where
  "freshUnpacked newUID amiiboIdHex =
     (let unpackedData = replicate 540 (Num 0);
          bcc0 = calculateBCC0 newUID;
          unpackedData = setUID unpackedData newUID bcc0;
          unpackedData = js_set_block unpackedData 9 magicBytes1;
          unpackedData = js_set_block unpackedData 520 magicBytes2;
          idBytes = parse_pairs amiiboIdHex
      in js_set_block unpackedData 476 (map (js_get idBytes) [0..<8]))"

definition generateFresh ::
  "'k maboii \<Rightarrow> 'k option \<Rightarrow> (nat \<Rightarrow> byte) \<Rightarrow> filesys \<Rightarrow> string \<Rightarrow> string \<Rightarrow> string option
     \<Rightarrow> (error + outcome) \<times> filesys" where
  "generateFresh orc keys rnd fs amiiboIdHex outPath customUID =
     (if keys = None then (Inl KeysNotLoaded, fs)
      else
     (case chooseUID rnd customUID of
        Inl e \<Rightarrow> (Inl e, fs)
      | Inr newUID \<Rightarrow>
      if length amiiboIdHex \<noteq> 16 then (Inl BadIdLength, fs)
      else
     (case pack orc keys (freshUnpacked newUID amiiboIdHex) of
        None \<Rightarrow> (Inl OracleThrew, fs)
      | Some packed \<Rightarrow>
     (let packedData = js_set_block packed 9 packedMagicBytes;
          packedData = fixPosition8 packedData;
          pwd = calculatePWD packedData;
          packedData = setPwdPack packedData pwd;
          fs' = fs(outPath \<mapsto> to_buffer packedData)
      in if Undefined \<in> set (slice 0 8 packedData) then (Inl LogTypeError, fs')
         else (Inr \<lparr>out_uid = slice 0 8 packedData,
                     out_pwd = pwd,
                     out_amiiboId = amiiboIdHex,
                     outputPath = outPath\<rparr>, fs')))))"

section \<open>Stand-ins for the external library\<close>

text \<open>
  Two key-less stand-ins for the external library, used to run the operations on
  concrete inputs. The first only rearranges the 540 entries between the packed and the
  logical layout (the packed UID block 0 to 8 is the logical block 468 to 476, the packed
  character id 84 to 92 is the logical 476 to 484) and accepts every signature. The
  second rejects every signature. Both work on 540 entries: a shorter array reads as
  \<open>undefined\<close> past its end, a longer one is cut.
\<close>

definition pad540 :: "jsval list \<Rightarrow> jsval list" where
  "pad540 xs = take 540 (xs @ replicate (540 - length xs) Undefined)"

definition tag_to_internal :: "jsval list \<Rightarrow> jsval list" where
  "tag_to_internal tag =
     (let t = pad540 tag in
      slice 8 16 t @ slice 128 160 t @ slice 16 52 t @ slice 160 520 t
      @ slice 52 84 t @ slice 0 8 t @ slice 84 128 t @ slice 520 540 t)"

definition internal_to_tag :: "jsval list \<Rightarrow> jsval list" where
  "internal_to_tag plain =
     (let u = pad540 plain in
      slice 468 476 u @ slice 0 8 u @ slice 40 76 u @ slice 436 468 u
      @ slice 476 520 u @ slice 8 40 u @ slice 76 436 u @ slice 520 540 u)"

definition layout_only :: "unit maboii" where
  "layout_only =
     \<lparr>unpack = (\<lambda>keys tag. Some (True, tag_to_internal tag)),
      pack = (\<lambda>keys plain. Some (internal_to_tag plain))\<rparr>"

definition rejecting :: "unit maboii" where
  "rejecting =
     \<lparr>unpack = (\<lambda>keys tag. Some (False, tag_to_internal tag)),
      pack = (\<lambda>keys plain. Some (internal_to_tag plain))\<rparr>"

text \<open>Inputs for the examples: a random source of zeros, and small file systems.\<close>

definition zero_random :: "nat \<Rightarrow> byte" where
  "zero_random i = 0"

definition text_to_bytes :: "string \<Rightarrow> byte list" where
  "text_to_bytes s = map of_char s"

definition unlines :: "string list \<Rightarrow> string" where
  "unlines ls = concat (map (\<lambda>l. l @ [CHR 0x0A]) ls)"

definition blank_fs :: filesys where
  "blank_fs = [''template.bin'' \<mapsto> replicate 540 0]"

definition mario_template :: "byte list" where
  "mario_template = replicate 84 0 @ [0x00, 0x00, 0x00, 0x00, 0x00, 0x34, 0x01, 0x02] @ replicate 448 0"

definition mario_fs :: filesys where
  "mario_fs = [''mario.bin'' \<mapsto> mario_template]"

definition skipping_nfc :: string where
  "skipping_nfc =
     unlines (''Flipper NFC device'' # ''Page x'' # replicate 135 ''Page 0: 00 00 00 00'')"

definition short_fs :: filesys where
  "short_fs = [''short.bin'' \<mapsto> [1, 2, 3],
               ''short.nfc'' \<mapsto> text_to_bytes ''Flipper NFC device'']"

section \<open>What an operation left on disk\<close>

text \<open>
  An operation reached its write when it returned normally or failed in the printing
  after the write. \<open>persistedImage\<close> is the file it then left at the output path.
\<close>

definition persisted :: "error + outcome \<Rightarrow> bool" where
  "persisted r = (case r of Inr _ \<Rightarrow> True | Inl e \<Rightarrow> e = LogTypeError)"

definition persistedImage :: "(error + outcome) \<times> filesys \<Rightarrow> string \<Rightarrow> byte list option" where
  "persistedImage run outPath = (if persisted (fst run) then snd run outPath else None)"

text \<open>The array that \<open>changeUID\<close> writes, from what \<open>pack\<close> returned.\<close>

definition changePatched :: "jsval list \<Rightarrow> jsval list \<Rightarrow> jsval list" where
  "changePatched packed originalAmiiboID =
     (let q = js_set_block (fixPosition8 packed) 84 (map (js_get originalAmiiboID) [0..<8])
      in setPwdPack q (calculatePWD q))"

text \<open>The array that \<open>generateFresh\<close> writes, from what \<open>pack\<close> returned.\<close>

definition freshPatched :: "jsval list \<Rightarrow> jsval list" where
  "freshPatched packed =
     (let q = fixPosition8 (js_set_block packed 9 packedMagicBytes)
      in setPwdPack q (calculatePWD q))"

section \<open>Supporting lemmas\<close>

subsection \<open>Arrays\<close>

lemma length_js_set: "length (js_set xs i v) = max (length xs) (Suc i)"
  by (auto simp: js_set_def)

lemma js_get_js_set: "js_get (js_set xs i v) j = (if j = i then v else js_get xs j)"
  by (auto simp: js_set_def js_get_def nth_append)

lemma length_js_set_block:
  "length (js_set_block xs off vs) = (if vs = [] then length xs else max (length xs) (off + length vs))"
  by (induction vs arbitrary: xs off) (auto simp: length_js_set)

lemma js_get_js_set_block:
  "js_get (js_set_block xs off vs) j =
     (if off \<le> j \<and> j < off + length vs then vs ! (j - off) else js_get xs j)"
  by (induction vs arbitrary: xs off) (auto simp: js_get_js_set nth_Cons')

lemma slice_to_buffer: "slice a b (to_buffer xs) = to_buffer (slice a b xs)"
  by (simp add: slice_def to_buffer_def take_map drop_map)

lemma slice_eq_map_get:
  "b \<le> length xs \<Longrightarrow> slice a b xs = map (js_get xs) [a..<b]"
  by (rule nth_equalityI) (auto simp: slice_def js_get_def)

lemma nth_to_buffer: "i < length xs \<Longrightarrow> to_buffer xs ! i = to_uint8 (js_get xs i)"
  by (simp add: to_buffer_def js_get_def)

lemma length_to_buffer: "length (to_buffer xs) = length xs"
  by (simp add: to_buffer_def)

lemma js_get_from_buffer:
  "i < length bs \<Longrightarrow> js_get (from_buffer bs) i = Num (uint (bs ! i))"
  by (simp add: from_buffer_def js_get_def)

subsection \<open>Bytes of XOR results\<close>

lemma scast_byte: "(scast (w :: 32 word) :: byte) = ucast w"
  by (rule bit_word_eqI) (auto simp: bit_simps)

lemma ucast_to_int32: "(ucast (to_int32 v) :: byte) = to_uint8 v"
proof (cases v)
  case (Num n)
  have "(ucast (word_of_int n :: 32 word) :: byte) = word_of_int n"
    by (rule bit_word_eqI) (auto simp: bit_simps)
  with Num show ?thesis by (simp add: to_int32_def to_uint8_def)
qed (simp_all add: to_int32_def to_uint8_def)

lemma to_uint8_js_xor: "to_uint8 (js_xor a b) = to_uint8 a XOR to_uint8 b"
proof -
  have "to_uint8 (js_xor a b) = (scast (to_int32 a XOR to_int32 b) :: byte)"
    by (simp add: js_xor_def to_uint8_def)
  also have "\<dots> = ucast (to_int32 a XOR to_int32 b)"
    by (rule scast_byte)
  also have "\<dots> = ucast (to_int32 a) XOR ucast (to_int32 b)"
    by (simp add: unsigned_xor_eq)
  finally show ?thesis by (simp add: ucast_to_int32)
qed

lemma byte_and_255: "(w :: byte) AND 255 = w"
proof -
  have e: "(255 :: byte) = - 1" by simp
  show ?thesis unfolding e by simp
qed

lemma to_uint8_js_and_255: "to_uint8 (js_and a (Num 0xFF)) = to_uint8 a"
proof -
  have "to_uint8 (js_and a (Num 0xFF)) = (scast (to_int32 a AND to_int32 (Num 0xFF)) :: byte)"
    by (simp add: js_and_def to_uint8_def)
  also have "\<dots> = ucast (to_int32 a AND to_int32 (Num 0xFF))"
    by (rule scast_byte)
  also have "\<dots> = ucast (to_int32 a) AND ucast (to_int32 (Num 0xFF))"
    by (simp add: unsigned_and_eq)
  also have "\<dots> = to_uint8 a AND 255"
    by (simp add: ucast_to_int32 to_uint8_def)
  finally show ?thesis by (simp add: byte_and_255)
qed

lemma to_uint8_Num_uint: "to_uint8 (Num (uint (b :: byte))) = b"
  by (simp add: to_uint8_def)

subsection \<open>Control flow of the two pipelines\<close>

lemma readTemplateFile_not_log: "readTemplateFile fs t \<noteq> Inl LogTypeError"
  by (auto simp: readTemplateFile_def parseNFCFile_def split: option.splits sum.splits)

lemma chooseUID_not_log: "chooseUID rnd cu \<noteq> Inl LogTypeError"
  by (auto simp: chooseUID_def parseCustomUID_def split: option.splits)

lemma changeUID_run:
  assumes "keys \<noteq> None" "readTemplateFile fs t = Inr d"
    "unpack orc keys (from_buffer d) = Some (True, u)"
    "chooseUID rnd cu = Inr newUID"
    "pack orc keys (setUID u newUID (calculateBCC0 newUID)) = Some p"
  shows "persistedImage (changeUID orc keys rnd fs t out cu) out
           = Some (to_buffer (changePatched p (slice 84 92 (from_buffer d))))"
  using assms
  by (simp add: changeUID_def persistedImage_def persisted_def changePatched_def Let_def)

lemma changeUID_persisted_cases:
  assumes "persisted (fst (changeUID orc keys rnd fs t out cu))"
  obtains d u newUID p where "keys \<noteq> None" "readTemplateFile fs t = Inr d"
    "unpack orc keys (from_buffer d) = Some (True, u)"
    "chooseUID rnd cu = Inr newUID"
    "pack orc keys (setUID u newUID (calculateBCC0 newUID)) = Some p"
  using assms readTemplateFile_not_log[of fs t] chooseUID_not_log[of rnd cu]
  by (auto simp: changeUID_def persisted_def Let_def
           split: if_splits sum.splits option.splits prod.splits)

lemma changeUID_unchanged:
  assumes "\<not> persisted (fst (changeUID orc keys rnd fs t out cu))"
  shows "snd (changeUID orc keys rnd fs t out cu) = fs"
  using assms
  by (auto simp: changeUID_def persisted_def Let_def
           split: if_splits sum.splits option.splits prod.splits)

lemma generateFresh_run:
  assumes "keys \<noteq> None" "chooseUID rnd cu = Inr newUID" "length idHex = 16"
    "pack orc keys (freshUnpacked newUID idHex) = Some p"
  shows "persistedImage (generateFresh orc keys rnd fs idHex out cu) out
           = Some (to_buffer (freshPatched p))"
  using assms
  by (simp add: generateFresh_def persistedImage_def persisted_def freshPatched_def Let_def)

lemma generateFresh_persisted_cases:
  assumes "persisted (fst (generateFresh orc keys rnd fs idHex out cu))"
  obtains newUID p where "keys \<noteq> None" "chooseUID rnd cu = Inr newUID" "length idHex = 16"
    "pack orc keys (freshUnpacked newUID idHex) = Some p"
  using assms chooseUID_not_log[of rnd cu]
  by (auto simp: generateFresh_def persisted_def Let_def
           split: if_splits sum.splits option.splits prod.splits)

lemma generateFresh_unchanged:
  assumes "\<not> persisted (fst (generateFresh orc keys rnd fs idHex out cu))"
  shows "snd (generateFresh orc keys rnd fs idHex out cu) = fs"
  using assms
  by (auto simp: generateFresh_def persisted_def Let_def
           split: if_splits sum.splits option.splits prod.splits)

subsection \<open>The patched arrays, entry by entry\<close>

lemma length_setPwdPack: "length (setPwdPack q pwd) = max (length q) 538"
  by (simp add: setPwdPack_def length_js_set_block del: js_set_block.simps)

lemma js_get_setPwdPack:
  "js_get (setPwdPack q pwd) j =
     (if j = 532 then js_get pwd 0 else if j = 533 then js_get pwd 1
      else if j = 534 then js_get pwd 2 else if j = 535 then js_get pwd 3
      else if j = 536 \<or> j = 537 then Num 0x80
      else js_get q j)"
  by (simp add: setPwdPack_def js_get_js_set)

lemma js_get_block_map:
  "js_get (js_set_block q off (map f [0..<n])) j =
     (if off \<le> j \<and> j < off + n then f (j - off) else js_get q j)"
  by (auto simp: js_get_js_set_block)

lemma length_block_map:
  "0 < n \<Longrightarrow> length (js_set_block q off (map f [0..<n])) = max (length q) (off + n)"
  by (simp add: length_js_set_block)

lemma js_get_fixPosition8:
  "js_get (fixPosition8 p) j =
     (if j = 8 then js_xor (js_xor (js_xor (js_get p 4) (js_get p 5)) (js_get p 6)) (js_get p 7)
      else js_get p j)"
  by (simp add: fixPosition8_def js_get_js_set)

lemma js_get_calculatePWD:
  "js_get (calculatePWD q) 0 = js_and (js_xor (js_xor (Num 0xAA) (js_get q 1)) (js_get q 4)) (Num 0xFF)"
  "js_get (calculatePWD q) (Suc 0) = js_and (js_xor (js_xor (Num 0x55) (js_get q 2)) (js_get q 5)) (Num 0xFF)"
  "js_get (calculatePWD q) 2 = js_and (js_xor (js_xor (Num 0xAA) (js_get q 4)) (js_get q 6)) (Num 0xFF)"
  "js_get (calculatePWD q) 3 = js_and (js_xor (js_xor (Num 0x55) (js_get q 5)) (js_get q 7)) (Num 0xFF)"
  by (simp_all add: calculatePWD_def js_get_def)

lemma calculatePWD_cong:
  "(\<And>i. i < 8 \<Longrightarrow> js_get a i = js_get b i) \<Longrightarrow> calculatePWD a = calculatePWD b"
  by (simp add: calculatePWD_def)


lemma js_get_changePatched:
  "js_get (changePatched p ids) j =
     (let q = js_set_block (fixPosition8 p) 84 (map (js_get ids) [0..<8]) in
      if j = 532 then js_get (calculatePWD q) 0 else if j = 533 then js_get (calculatePWD q) 1
      else if j = 534 then js_get (calculatePWD q) 2 else if j = 535 then js_get (calculatePWD q) 3
      else if j = 536 \<or> j = 537 then Num 0x80
      else if 84 \<le> j \<and> j < 92 then js_get ids (j - 84)
      else js_get (fixPosition8 p) j)"
  by (simp add: changePatched_def Let_def js_get_setPwdPack js_get_block_map)

lemma length_changePatched: "length (changePatched p ids) = max (length p) 538"
  by (simp add: changePatched_def Let_def length_setPwdPack length_block_map
                fixPosition8_def length_js_set)

lemma js_get_freshPatched:
  "js_get (freshPatched p) j =
     (let q = fixPosition8 (js_set_block p 9 packedMagicBytes) in
      if j = 532 then js_get (calculatePWD q) 0 else if j = 533 then js_get (calculatePWD q) 1
      else if j = 534 then js_get (calculatePWD q) 2 else if j = 535 then js_get (calculatePWD q) 3
      else if j = 536 \<or> j = 537 then Num 0x80
      else js_get q j)"
  by (simp add: freshPatched_def Let_def js_get_setPwdPack)

lemma length_packedMagicBytes: "length packedMagicBytes = 8"
  by (simp add: packedMagicBytes_def)

lemma length_freshPatched: "length (freshPatched p) = max (length p) 538"
  by (auto simp: freshPatched_def Let_def length_setPwdPack length_js_set_block
                fixPosition8_def length_js_set length_packedMagicBytes max_def
           simp del: js_set_block.simps)


subsection \<open>The derived fields of a written image\<close>

lemma slice_nth:
  "b \<le> length xs \<Longrightarrow> slice a b xs = map (\<lambda>i. xs ! i) [a..<b]"
  by (rule nth_equalityI) (auto simp: slice_def)

lemma upt_532_536: "[532..<536] = [532, 533, 534, 535::nat]"
  by (simp add: upt_rec)

lemma upt_536_538: "[536..<538] = [536, 537::nat]"
  by (simp add: upt_rec)

lemma to_uint8_Num: "to_uint8 (Num n) = word_of_int n"
  by (simp add: to_uint8_def)

lemma to_uint8_pwd_entry:
  "to_uint8 (js_and (js_xor (js_xor (Num k) a) b) (Num 0xFF))
     = word_of_int k XOR to_uint8 a XOR to_uint8 b"
  by (simp add: to_uint8_js_and_255 to_uint8_js_xor to_uint8_Num xor.assoc)

lemma pwd_of_buffer:
  assumes "8 \<le> length img"
  shows "to_buffer (calculatePWD (from_buffer img)) =
           [0xAA XOR img ! 1 XOR img ! 4, 0x55 XOR img ! 2 XOR img ! 5,
            0xAA XOR img ! 4 XOR img ! 6, 0x55 XOR img ! 5 XOR img ! 7]"
proof -
  have g: "\<And>i. i < 8 \<Longrightarrow> js_get (from_buffer img) i = Num (uint (img ! i))"
    using assms by (simp add: js_get_from_buffer)
  show ?thesis
    by (simp add: calculatePWD_def Let_def to_buffer_def js_get_def[of "[_,_,_,_,_,_,_]"]
                  g to_uint8_pwd_entry to_uint8_Num_uint)
qed

lemma finished_image:
  fixes q :: "jsval list"
  defines "img \<equiv> to_buffer (setPwdPack q (calculatePWD q))"
  shows finished_length: "length img = max (length q) 538"
    and finished_nth: "\<And>j. j < 532 \<Longrightarrow> img ! j = to_uint8 (js_get q j)"
    and finished_pwd: "slice 532 536 img = to_buffer (calculatePWD (from_buffer img))"
    and finished_pack: "slice 536 538 img = [0x80, 0x80]"
proof -
  let ?P = "setPwdPack q (calculatePWD q)"
  show len: "length img = max (length q) 538"
    by (simp add: img_def length_to_buffer length_setPwdPack)
  have nth: "\<And>j. j < 538 \<Longrightarrow> img ! j = to_uint8 (js_get ?P j)"
    by (simp add: img_def nth_to_buffer length_setPwdPack)
  show low: "\<And>j. j < 532 \<Longrightarrow> img ! j = to_uint8 (js_get q j)"
    by (simp add: nth js_get_setPwdPack)
  have "slice 532 536 img = [img ! 532, img ! 533, img ! 534, img ! 535]"
    using len by (simp add: slice_nth upt_532_536)
  also have "\<dots> = [0xAA XOR img ! 1 XOR img ! 4, 0x55 XOR img ! 2 XOR img ! 5,
                     0xAA XOR img ! 4 XOR img ! 6, 0x55 XOR img ! 5 XOR img ! 7]"
    by (simp add: nth low js_get_setPwdPack js_get_calculatePWD to_uint8_pwd_entry)
  also have "\<dots> = to_buffer (calculatePWD (from_buffer img))"
    using len by (simp add: pwd_of_buffer)
  finally show "slice 532 536 img = to_buffer (calculatePWD (from_buffer img))" .
  have "slice 536 538 img = [img ! 536, img ! 537]"
    using len by (simp add: slice_nth upt_536_538)
  then show "slice 536 538 img = [0x80, 0x80]"
    by (simp add: nth js_get_setPwdPack to_uint8_def)
qed

subsection \<open>What was written, from the run\<close>

lemma persistedImage_changeUID_cases:
  assumes "persistedImage (changeUID orc keys rnd fs t out cu) out = Some img"
  obtains d u newUID p where "keys \<noteq> None" "readTemplateFile fs t = Inr d"
    "unpack orc keys (from_buffer d) = Some (True, u)"
    "chooseUID rnd cu = Inr newUID"
    "pack orc keys (setUID u newUID (calculateBCC0 newUID)) = Some p"
    "img = to_buffer (changePatched p (slice 84 92 (from_buffer d)))"
proof -
  from assms have per: "persisted (fst (changeUID orc keys rnd fs t out cu))"
    by (simp add: persistedImage_def split: if_splits)
  then obtain d u newUID p where h: "keys \<noteq> None" "readTemplateFile fs t = Inr d"
    "unpack orc keys (from_buffer d) = Some (True, u)"
    "chooseUID rnd cu = Inr newUID"
    "pack orc keys (setUID u newUID (calculateBCC0 newUID)) = Some p"
    by (rule changeUID_persisted_cases)
  from changeUID_run[OF h, of out] assms
  have "img = to_buffer (changePatched p (slice 84 92 (from_buffer d)))" by simp
  with h show thesis by (rule that)
qed

lemma persistedImage_generateFresh_cases:
  assumes "persistedImage (generateFresh orc keys rnd fs idHex out cu) out = Some img"
  obtains newUID p where "keys \<noteq> None" "chooseUID rnd cu = Inr newUID" "length idHex = 16"
    "pack orc keys (freshUnpacked newUID idHex) = Some p"
    "img = to_buffer (freshPatched p)"
proof -
  from assms have per: "persisted (fst (generateFresh orc keys rnd fs idHex out cu))"
    by (simp add: persistedImage_def split: if_splits)
  then obtain newUID p where h: "keys \<noteq> None" "chooseUID rnd cu = Inr newUID"
    "length idHex = 16" "pack orc keys (freshUnpacked newUID idHex) = Some p"
    by (rule generateFresh_persisted_cases)
  from generateFresh_run[OF h, of fs out] assms
  have "img = to_buffer (freshPatched p)" by simp
  with h show thesis by (rule that)
qed

lemma upt_84_92: "[84..<92] = [84, 85, 86, 87, 88, 89, 90, 91::nat]"
  by (simp add: upt_rec)

subsection \<open>The stand-ins\<close>

lemma length_slice: "length (slice a b xs) = min (b - a) (length xs - a)"
  by (simp add: slice_def)

lemma pad540_id: "length xs = 540 \<Longrightarrow> pad540 xs = xs"
  by (simp add: pad540_def)

lemma length_pad540: "length (pad540 xs) = 540"
  by (simp add: pad540_def)

lemma length_tag_to_internal: "length (tag_to_internal t) = 540"
  by (simp add: tag_to_internal_def Let_def length_slice length_pad540)

lemma length_internal_to_tag: "length (internal_to_tag u) = 540"
  by (simp add: internal_to_tag_def Let_def length_slice length_pad540)

lemma internal_to_tag_uid:
  "length u = 540 \<Longrightarrow> slice 0 8 (internal_to_tag u) = slice 468 476 u"
  by (simp add: internal_to_tag_def Let_def pad540_id slice_def)

lemma internal_to_tag_id:
  assumes "length u = 540"
  shows "slice 84 92 (internal_to_tag u) = slice 476 484 u"
proof -
  have "internal_to_tag u =
          (slice 468 476 u @ slice 0 8 u @ slice 40 76 u @ slice 436 468 u) @ slice 476 520 u
          @ slice 8 40 u @ slice 76 436 u @ slice 520 540 u"
    using assms by (simp add: internal_to_tag_def Let_def pad540_id)
  moreover have "length (slice 468 476 u @ slice 0 8 u @ slice 40 76 u @ slice 436 468 u) = 84"
    using assms by (simp add: length_slice)
  ultimately have "drop 84 (internal_to_tag u) =
      slice 476 520 u @ slice 8 40 u @ slice 76 436 u @ slice 520 540 u"
    by (simp del: append_assoc)
  then have "slice 84 92 (internal_to_tag u) = take 8 (slice 476 520 u)"
    using assms by (simp add: slice_def[of 84 92] length_slice)
  then show ?thesis
    by (simp add: slice_def min_def)
qed

lemma unpack_layout_only: "unpack layout_only k d = Some (True, tag_to_internal d)"
  by (simp add: layout_only_def)

lemma pack_layout_only: "pack layout_only k u = Some (internal_to_tag u)"
  by (simp add: layout_only_def)

lemma unpack_rejecting: "unpack rejecting k d = Some (False, tag_to_internal d)"
  by (simp add: rejecting_def)

lemma file_ext_template_bin: "file_ext ''template.bin'' = ''bin''"
  by (simp add: file_ext_def to_lower_def)

lemma read_blank_fs: "readTemplateFile blank_fs ''template.bin'' = Inr (replicate 540 0)"
  by (simp add: readTemplateFile_def file_ext_template_bin blank_fs_def)

lemma chooseUID_None: "chooseUID rnd None = Inr (generateRandomUID rnd)"
  by (simp add: chooseUID_def)

lemma length_setUID: "476 \<le> length u \<Longrightarrow> length (setUID u newUID b) = length u"
  by (simp add: setUID_def length_js_set_block del: js_set_block.simps)

lemma length_freshUnpacked: "length (freshUnpacked newUID idHex) = 540"
  by (simp add: freshUnpacked_def Let_def length_js_set_block length_setUID
                magicBytes1_def magicBytes2_def del: js_set_block.simps)

subsection \<open>The UID block\<close>

lemma slice_get:
  assumes "slice a b xs = slice c d ys" "b \<le> length xs" "d \<le> length ys" "b - a = d - c"
    "i < b - a"
  shows "js_get xs (a + i) = js_get ys (c + i)"
proof -
  have x: "slice a b xs ! i = xs ! (a + i)" using assms(2,5) by (simp add: slice_def)
  have y: "slice c d ys ! i = ys ! (c + i)" using assms(3,4,5) by (simp add: slice_def)
  have "xs ! (a + i) = ys ! (c + i)"
    using x y by (simp only: assms(1))
  moreover have "a + i < length xs" using assms(2,5) by arith
  moreover have "c + i < length ys" using assms(3,4,5) by arith
  ultimately show ?thesis by (simp add: js_get_def)
qed

lemma js_get_setUID:
  "js_get (setUID u newUID b) j =
     (if j = 468 then js_get newUID 0 else if j = 469 then js_get newUID 1
      else if j = 470 then js_get newUID 2 else if j = 471 then b
      else if j = 472 then js_get newUID 3 else if j = 473 then js_get newUID 4
      else if j = 474 then js_get newUID 5 else if j = 475 then js_get newUID 6
      else js_get u j)"
  by (simp add: setUID_def js_get_js_set)

lemma calculateBCC0_triple:
  "calculateBCC0 [x, y, z] = js_xor (js_xor (js_xor x y) z) (Num 0x88)"
  by (simp add: calculateBCC0_def js_get_def)

lemma bcc0_of_buffer:
  assumes "3 \<le> length img"
  shows "to_uint8 (calculateBCC0 (from_buffer img)) = img ! 0 XOR img ! 1 XOR img ! 2 XOR 0x88"
proof -
  have g: "\<And>i. i < 3 \<Longrightarrow> js_get (from_buffer img) i = Num (uint (img ! i))"
    using assms by (simp add: js_get_from_buffer)
  have "calculateBCC0 (from_buffer img) =
          calculateBCC0 [Num (uint (img ! 0)), Num (uint (img ! 1)), Num (uint (img ! 2))]"
    using g[of 0] g[of 1] g[of 2] by (simp add: calculateBCC0_def js_get_def[of "[_, _, _]"])
  then show ?thesis
    by (simp add: calculateBCC0_triple to_uint8_js_xor to_uint8_Num_uint to_uint8_Num xor.assoc)
qed

text \<open>The first nine bytes of a finished image whose array starts with a UID block.\<close>

lemma finished_uid_block:
  fixes q l :: "jsval list"
  assumes q: "\<And>i. i < 8 \<Longrightarrow> js_get q i = js_get l (468 + i)"
    and l3: "js_get l 471 = calculateBCC0 [js_get l 468, js_get l 469, js_get l 470]"
    and q8: "js_get q 8 = js_xor (js_xor (js_xor (js_get q 4) (js_get q 5)) (js_get q 6)) (js_get q 7)"
  defines "img \<equiv> to_buffer (setPwdPack q (calculatePWD q))"
  shows "img ! 3 = to_uint8 (calculateBCC0 (from_buffer img))"
    and "img ! 8 = img ! 4 XOR img ! 5 XOR img ! 6 XOR img ! 7"
proof -
  have nth: "\<And>j. j < 532 \<Longrightarrow> img ! j = to_uint8 (js_get q j)"
    unfolding img_def by (rule finished_nth)
  have len: "3 \<le> length img"
    unfolding img_def by (simp add: finished_length)
  have "img ! 3 = to_uint8 (js_get l 471)"
    using q[of 3] by (simp add: nth)
  also have "\<dots> = img ! 0 XOR img ! 1 XOR img ! 2 XOR 0x88"
    using q[of 0] q[of 1] q[of 2]
    by (simp add: l3 nth calculateBCC0_triple to_uint8_js_xor to_uint8_Num xor.assoc)
  finally show "img ! 3 = to_uint8 (calculateBCC0 (from_buffer img))"
    using len by (simp add: bcc0_of_buffer)
  show "img ! 8 = img ! 4 XOR img ! 5 XOR img ! 6 XOR img ! 7"
    by (simp add: nth q8 to_uint8_js_xor xor.assoc)
qed

subsection \<open>Invariants of the written arrays\<close>

lemma calculateBCC0_cong:
  "calculateBCC0 newUID = calculateBCC0 [js_get newUID 0, js_get newUID 1, js_get newUID 2]"
  by (simp add: calculateBCC0_def js_get_def[of "[_, _, _]"])

lemma js_get_freshUnpacked_uid:
  assumes "468 \<le> j" "j < 476"
  shows "js_get (freshUnpacked newUID idHex) j
           = js_get (setUID (replicate 540 (Num 0)) newUID (calculateBCC0 newUID)) j"
  using assms
  by (simp add: freshUnpacked_def Let_def js_get_block_map js_get_js_set_block
                magicBytes1_def magicBytes2_def del: js_set_block.simps)

lemma upt_9_17: "[9..<17] = [9, 10, 11, 12, 13, 14, 15, 16::nat]"
  by (simp add: upt_rec)

lemma changePatched_invariants:
  fixes p l ids :: "jsval list"
  assumes lp: "length p = 540" and ll: "length l = 540"
    and uid: "slice 0 8 p = slice 468 476 l"
    and l3: "js_get l 471 = calculateBCC0 [js_get l 468, js_get l 469, js_get l 470]"
  defines "img \<equiv> to_buffer (changePatched p ids)"
  shows "length img = 540 \<and> img ! 3 = to_uint8 (calculateBCC0 (from_buffer img))
         \<and> img ! 8 = img ! 4 XOR img ! 5 XOR img ! 6 XOR img ! 7
         \<and> slice 532 536 img = to_buffer (calculatePWD (from_buffer img))
         \<and> slice 536 538 img = [0x80, 0x80]"
proof -
  let ?q = "js_set_block (fixPosition8 p) 84 (map (js_get ids) [0..<8])"
  have img: "img = to_buffer (setPwdPack ?q (calculatePWD ?q))"
    by (simp add: img_def changePatched_def Let_def)
  have pl: "\<And>i. i < 8 \<Longrightarrow> js_get p i = js_get l (468 + i)"
    using slice_get[OF uid, of _] lp ll by simp
  have q: "\<And>i. i < 8 \<Longrightarrow> js_get ?q i = js_get l (468 + i)"
    by (simp add: js_get_block_map js_get_fixPosition8 pl)
  have q8: "js_get ?q 8 = js_xor (js_xor (js_xor (js_get ?q 4) (js_get ?q 5)) (js_get ?q 6)) (js_get ?q 7)"
    by (simp add: js_get_block_map js_get_fixPosition8)
  have len: "length img = 540"
    by (simp add: img finished_length length_block_map fixPosition8_def length_js_set lp)
  from finished_uid_block[of ?q l, OF q l3 q8] finished_pwd[of ?q] finished_pack[of ?q] len
  show ?thesis by (simp add: img)
qed

lemma freshPatched_invariants:
  fixes p l :: "jsval list"
  assumes lp: "length p = 540" and ll: "length l = 540"
    and uid: "slice 0 8 p = slice 468 476 l"
    and l3: "js_get l 471 = calculateBCC0 [js_get l 468, js_get l 469, js_get l 470]"
  defines "img \<equiv> to_buffer (freshPatched p)"
  shows "length img = 540 \<and> img ! 3 = to_uint8 (calculateBCC0 (from_buffer img))
         \<and> img ! 8 = img ! 4 XOR img ! 5 XOR img ! 6 XOR img ! 7
         \<and> slice 532 536 img = to_buffer (calculatePWD (from_buffer img))
         \<and> slice 536 538 img = [0x80, 0x80]"
proof -
  let ?q = "fixPosition8 (js_set_block p 9 packedMagicBytes)"
  have img: "img = to_buffer (setPwdPack ?q (calculatePWD ?q))"
    by (simp add: img_def freshPatched_def Let_def)
  have pl: "\<And>i. i < 8 \<Longrightarrow> js_get p i = js_get l (468 + i)"
    using slice_get[OF uid, of _] lp ll by simp
  have q: "\<And>i. i < 8 \<Longrightarrow> js_get ?q i = js_get l (468 + i)"
    by (simp add: js_get_js_set_block js_get_fixPosition8 pl del: js_set_block.simps)
  have q8: "js_get ?q 8 = js_xor (js_xor (js_xor (js_get ?q 4) (js_get ?q 5)) (js_get ?q 6)) (js_get ?q 7)"
    by (simp add: js_get_fixPosition8)
  have len: "length img = 540"
    by (simp add: img finished_length length_js_set_block fixPosition8_def length_js_set lp
                  length_packedMagicBytes del: js_set_block.simps)
  from finished_uid_block[of ?q l, OF q l3 q8] finished_pwd[of ?q] finished_pack[of ?q] len
  show ?thesis by (simp add: img)
qed

lemma freshPatched_magic:
  "slice 9 17 (to_buffer (freshPatched p)) = to_buffer packedMagicBytes"
proof -
  let ?q = "fixPosition8 (js_set_block p 9 packedMagicBytes)"
  let ?img = "to_buffer (setPwdPack ?q (calculatePWD ?q))"
  have nth: "\<And>j. j < 532 \<Longrightarrow> ?img ! j = to_uint8 (js_get ?q j)"
    by (rule finished_nth)
  have len: "17 \<le> length ?img" by (simp add: finished_length)
  have g: "\<And>j. 9 \<le> j \<Longrightarrow> j < 17 \<Longrightarrow> js_get ?q j = packedMagicBytes ! (j - 9)"
    by (simp add: js_get_fixPosition8 js_get_js_set_block length_packedMagicBytes
             del: js_set_block.simps)
  have "slice 9 17 ?img = map (\<lambda>j. ?img ! j) [9..<17]"
    using len by (rule slice_nth)
  also have "\<dots> = map (\<lambda>j. to_uint8 (packedMagicBytes ! (j - 9))) [9..<17]"
    by (simp add: upt_9_17 nth g)
  also have "\<dots> = to_buffer packedMagicBytes"
    by (simp add: upt_9_17 to_buffer_def packedMagicBytes_def)
  finally show ?thesis by (simp add: freshPatched_def Let_def)
qed

lemma changePatched_9_17:
  assumes "17 \<le> length p"
  shows "slice 9 17 (to_buffer (changePatched p ids)) = to_buffer (slice 9 17 p)"
proof -
  have "\<And>j. 9 \<le> j \<Longrightarrow> j < 17 \<Longrightarrow> js_get (changePatched p ids) j = js_get p j"
    by (simp add: js_get_changePatched Let_def js_get_fixPosition8)
  moreover have "17 \<le> length (changePatched p ids)"
    by (simp add: length_changePatched)
  ultimately have "slice 9 17 (changePatched p ids) = slice 9 17 p"
    using assms by (simp add: slice_eq_map_get)
  then show ?thesis by (simp add: slice_to_buffer)
qed

subsection \<open>The run on a blank template\<close>

lemma from_buffer_zeros: "from_buffer (replicate n 0) = replicate n (Num 0)"
  by (simp add: from_buffer_def)

lemma tag_to_internal_zeros: "tag_to_internal (replicate 540 (Num 0)) = replicate 540 (Num 0)"
  by (simp add: tag_to_internal_def pad540_def slice_def Let_def replicate_add[symmetric])

lemma js_get_internal_to_tag_8_16:
  assumes "length u = 540" "8 \<le> j" "j < 16"
  shows "js_get (internal_to_tag u) j = js_get u (j - 8)"
proof -
  have "j - 8 < 8" using assms by arith
  then show ?thesis
    using assms
    by (simp add: internal_to_tag_def Let_def pad540_id js_get_def nth_append length_slice)
       (simp add: slice_def)
qed

lemma js_get_internal_to_tag_16:
  assumes "length u = 540"
  shows "js_get (internal_to_tag u) 16 = js_get u 40"
  using assms
  by (simp add: internal_to_tag_def Let_def pad540_id js_get_def nth_append length_slice)
     (simp add: slice_def)

lemma blank_run_9_17:
  "slice 9 17 (internal_to_tag (setUID (replicate 540 (Num 0)) newUID b)) = [Num 0, Num 0, Num 0, Num 0, Num 0, Num 0, Num 0, Num 0]"
proof -
  let ?l = "setUID (replicate 540 (Num 0)) newUID b"
  have ll: "length ?l = 540" by (simp add: length_setUID)
  have z: "\<And>j. j < 468 \<Longrightarrow> js_get ?l j = Num 0"
    by (simp add: js_get_setUID) (simp add: js_get_def)
  have "slice 9 17 (internal_to_tag ?l) = map (js_get (internal_to_tag ?l)) [9..<17]"
    by (simp add: slice_eq_map_get length_internal_to_tag)
  also have "\<dots> = [Num 0, Num 0, Num 0, Num 0, Num 0, Num 0, Num 0, Num 0]"
    by (simp add: upt_9_17 js_get_internal_to_tag_8_16[OF ll] js_get_internal_to_tag_16[OF ll] z)
  finally show ?thesis .
qed

lemma blank_change_run:
  "persistedImage (changeUID layout_only (Some ()) zero_random blank_fs ''template.bin''
                     ''out.bin'' None) ''out.bin''
     = Some (to_buffer (changePatched
          (internal_to_tag (setUID (replicate 540 (Num 0)) (generateRandomUID zero_random)
             (calculateBCC0 (generateRandomUID zero_random))))
          (slice 84 92 (replicate 540 (Num 0)))))"
  using changeUID_run[of "Some ()" blank_fs "''template.bin''" "replicate 540 0" layout_only
          "replicate 540 (Num 0)" zero_random None "generateRandomUID zero_random" _ "''out.bin''"]
  by (simp add: read_blank_fs unpack_layout_only pack_layout_only chooseUID_None
                from_buffer_zeros tag_to_internal_zeros)

lemma blank_fresh_run:
  "persistedImage (generateFresh layout_only (Some ()) zero_random blank_fs ''1919000000090002''
                     ''out.bin'' None) ''out.bin''
     = Some (to_buffer (freshPatched
          (internal_to_tag (freshUnpacked (generateRandomUID zero_random) ''1919000000090002''))))"
  using generateFresh_run[of "Some ()" zero_random None "generateRandomUID zero_random"
          "''1919000000090002''" layout_only _ blank_fs "''out.bin''"]
  by (simp add: pack_layout_only chooseUID_None)

lemma file_ext_mario_bin: "file_ext ''mario.bin'' = ''bin''"
  by (simp add: file_ext_def to_lower_def)

lemma read_mario_fs: "readTemplateFile mario_fs ''mario.bin'' = Inr mario_template"
  by (simp add: readTemplateFile_def file_ext_mario_bin mario_fs_def)

lemma length_mario_template: "length mario_template = 540"
  by (simp add: mario_template_def)

lemma parse_0451: "parseCustomUID ''0451'' = Inl BadUidLength"
  by (simp add: parseCustomUID_def)

subsection \<open>The fresh image of the scenario\<close>

lemma parse_uid_example:
  "parse_pairs ''0451186d0da09e'' = [Num 0x04, Num 0x51, Num 0x18, Num 0x6d, Num 0x0d, Num 0xa0, Num 0x9e]"
  by (simp add: parseInt16_def is_js_space_def hex_digit_def hex_value_def)

lemma parse_id_example:
  "parse_pairs ''1919000000090002'' = [Num 0x19, Num 0x19, Num 0, Num 0, Num 0, Num 0x09, Num 0, Num 0x02]"
  by (simp add: parseInt16_def is_js_space_def hex_digit_def hex_value_def)

lemma js_get_freshUnpacked_id:
  assumes "476 \<le> j" "j < 484"
  shows "js_get (freshUnpacked newUID idHex) j = js_get (parse_pairs idHex) (j - 476)"
  using assms
  by (simp add: freshUnpacked_def Let_def js_get_block_map)

lemma upt_468_476: "[468..<476] = [468, 469, 470, 471, 472, 473, 474, 475::nat]"
  by (simp add: upt_rec)

lemma upt_476_484: "[476..<484] = [476, 477, 478, 479, 480, 481, 482, 483::nat]"
  by (simp add: upt_rec)

lemma upt_0_8: "[0..<8] = [0, 1, 2, 3, 4, 5, 6, 7::nat]"
  by (simp add: upt_rec)

lemma freshUnpacked_uid_block:
  "slice 468 476 (freshUnpacked newUID idHex) =
     [js_get newUID 0, js_get newUID 1, js_get newUID 2, calculateBCC0 newUID,
      js_get newUID 3, js_get newUID 4, js_get newUID 5, js_get newUID 6]"
  by (simp add: slice_eq_map_get length_freshUnpacked upt_468_476 js_get_freshUnpacked_uid
                js_get_setUID)

lemma freshUnpacked_id_block:
  "slice 476 484 (freshUnpacked newUID idHex) = map (js_get (parse_pairs idHex)) [0..<8]"
  by (simp add: slice_eq_map_get length_freshUnpacked upt_476_484 js_get_freshUnpacked_id upt_0_8)

lemma freshPatched_low:
  assumes "j < 8 \<or> (17 \<le> j \<and> j < 532)"
  shows "js_get (freshPatched p) j = js_get p j"
  using assms
  by (auto simp: js_get_freshPatched Let_def js_get_fixPosition8 js_get_js_set_block
                 length_packedMagicBytes simp del: js_set_block.simps)

lemma freshPatched_slices:
  shows "slice 0 8 (to_buffer (freshPatched p)) = to_buffer (map (js_get p) [0..<8])"
    and "slice 84 92 (to_buffer (freshPatched p)) = to_buffer (map (js_get p) [84..<92])"
  by (simp_all add: slice_to_buffer slice_eq_map_get length_freshPatched freshPatched_low
                    upt_0_8 upt_84_92)


lemma length_ge_of_slice:
  assumes "slice a b xs = ys" "length ys = b - a" "a < b"
  shows "b \<le> length xs"
proof -
  have "min (b - a) (length xs - a) = b - a"
    using assms(1,2) length_slice[of a b xs] by simp
  with assms(3) show ?thesis by arith
qed

subsection \<open>The validator\<close>

lemma validateBin_rejected:
  assumes "readTemplateFile fs filePath = Inr fileData"
    "unpack orc keys (from_buffer fileData) = Some (False, unpacked)"
  shows "validateBin orc keys fs filePath = None"
  using assms by (simp add: validateBin_def split: option.splits)

lemma validateBin_report_hmac:
  assumes "validateBin orc keys fs filePath = Some rep"
  shows "hmacValid rep"
  using assms
  by (auto simp: validateBin_def Let_def split: option.splits sum.splits if_splits prod.splits)

lemma Undefined_notin_from_buffer: "Undefined \<notin> set (from_buffer bs)"
  by (auto simp: from_buffer_def)

lemma Undefined_notin_slice: "Undefined \<notin> set xs \<Longrightarrow> Undefined \<notin> set (slice a b xs)"
  by (auto simp: slice_def dest: in_set_takeD in_set_dropD)

lemma validateBin_accepted:
  assumes "fs filePath \<noteq> None" "readTemplateFile fs filePath = Inr fileData"
    "length fileData = 540"
    "unpack orc keys (from_buffer fileData) = Some (True, unpacked)"
  shows "\<exists>rep. validateBin orc keys fs filePath = Some rep"
proof -
  let ?d = "from_buffer fileData"
  have len: "length ?d = 540" using assms(3) by (simp add: from_buffer_def)
  have "js_get ?d 8 \<in> set ?d" using len by (simp add: js_get_def)
  then have d8: "js_get ?d 8 \<noteq> Undefined"
    using Undefined_notin_from_buffer[of fileData] by metis
  have "js_get (slice 0 8 ?d) 8 = Undefined"
    by (simp add: js_get_def length_slice)
  then have act: "js_or (js_get (slice 0 8 ?d) 8) (js_get ?d 8) = js_get ?d 8"
    by (simp add: js_or_def)
  have sl: "\<And>a b. Undefined \<notin> set (slice a b ?d)"
    by (rule Undefined_notin_slice) (rule Undefined_notin_from_buffer)
  show ?thesis
    using assms d8
    by (auto simp: validateBin_def Let_def act sl)
qed


subsection \<open>The text adapter\<close>

lemma split_on_nonempty: "split_on d s \<noteq> []"
  by (induction s) (auto split: list.splits)

lemma split_on_line:
  "d \<notin> set l \<Longrightarrow> split_on d (l @ d # rest) = l # split_on d rest"
  by (induction l) (auto split: list.splits simp: split_on_nonempty)

lemma split_on_unlines:
  "\<forall>l \<in> set ls. CHR 0x0A \<notin> set l \<Longrightarrow> split_on CHR 0x0A (unlines ls) = ls @ [[]]"
proof (induction ls)
  case Nil
  then show ?case by (simp add: unlines_def)
next
  case (Cons l ls)
  then have "split_on CHR 0x0A (unlines ls) = ls @ [[]]" by simp
  moreover have "unlines (l # ls) = l @ CHR 0x0A # unlines ls" by (simp add: unlines_def)
  ultimately show ?case using Cons.prems by (simp add: split_on_line)
qed

lemma page_bytes_append: "page_bytes (xs @ ys) = page_bytes xs @ page_bytes ys"
  by (induction xs) auto

lemma page_bytes_replicate: "page_bytes (replicate n l) = concat (replicate n (page_bytes [l]))"
  by (induction n) auto

lemma length_concat_replicate: "length (concat (replicate n xs)) = n * length xs"
  by (induction n) auto

lemma match_good_line:
  "match_page ''Page 0: 00 00 00 00'' = Some [''00'', ''00'', ''00'', ''00'']"
  by (simp add: match_page_here_def is_digit_def is_hex_def hex_digit_def)

lemma page_bytes_good_line:
  "page_bytes [''Page 0: 00 00 00 00''] = [Num 0, Num 0, Num 0, Num 0]"
  by (simp add: match_good_line starts_with_def parseInt16_def is_js_space_def
                hex_digit_def hex_value_def del: match_page.simps)

lemma match_bad_line: "match_page ''Page x'' = None"
  by (simp add: match_page_here_def)

lemma starts_bad_line: "starts_with ''Page x'' ''Page ''"
  by (simp add: starts_with_def)

lemma page_bytes_header: "page_bytes [''Flipper NFC device''] = []"
  by (simp add: starts_with_def)

lemma includes_header: "includes_str ''Flipper NFC device'' ''Flipper NFC device''"
  by (simp add: starts_with_def)


lemma page_bytes_bad_line: "page_bytes (''Page x'' # ls) = page_bytes ls"
  by (simp add: match_bad_line del: match_page.simps)

lemma skipping_nfc_lines:
  "split_on CHR 0x0A skipping_nfc =
     (''Flipper NFC device'' # ''Page x'' # replicate 135 ''Page 0: 00 00 00 00'') @ [[]]"
  unfolding skipping_nfc_def
  by (rule split_on_unlines) auto

lemma skipping_nfc_pages:
  "page_bytes ((''Flipper NFC device'' # ''Page x'' # replicate 135 ''Page 0: 00 00 00 00'') @ [[]])
     = concat (replicate 135 [Num 0, Num 0, Num 0, Num 0])"
proof -
  have "page_bytes ((''Flipper NFC device'' # ''Page x'' # replicate 135 ''Page 0: 00 00 00 00'') @ [[]])
      = page_bytes [''Flipper NFC device''] @ page_bytes (''Page x'' # replicate 135 ''Page 0: 00 00 00 00'')
        @ page_bytes [[]]"
    using page_bytes_append[of "[''Flipper NFC device'']"
            "(''Page x'' # replicate 135 ''Page 0: 00 00 00 00'') @ [[]]"]
          page_bytes_append[of "''Page x'' # replicate 135 ''Page 0: 00 00 00 00''" "[[]]"]
    by (simp del: page_bytes.simps)
  also have "page_bytes [[]] = []" by (simp add: starts_with_def)
  also have "page_bytes (''Page x'' # replicate 135 ''Page 0: 00 00 00 00'')
      = concat (replicate 135 [Num 0, Num 0, Num 0, Num 0])"
    by (simp only: page_bytes_bad_line page_bytes_replicate page_bytes_good_line)
  finally show ?thesis by (simp only: page_bytes_header append_Nil append_Nil2)
qed

lemma parseNFCContent_eq:
  "parseNFCContent content =
     (if \<not> includes_str (hd (split_on CHR 0x0A content)) ''Flipper NFC device''
      then Inl NotFlipperFile
      else if length (page_bytes (split_on CHR 0x0A content)) \<noteq> 540
      then Inl (BadNfcSize (length (page_bytes (split_on CHR 0x0A content))))
      else Inr (to_buffer (page_bytes (split_on CHR 0x0A content))))"
proof (cases "split_on CHR 0x0A content")
  case Nil
  then show ?thesis using split_on_nonempty[of "CHR 0x0A" content] by simp
next
  case (Cons first rest)
  then show ?thesis
    by (simp add: parseNFCContent_def Let_def del: page_bytes.simps includes_str.simps)
qed

lemma skipping_nfc_parses:
  "parseNFCContent skipping_nfc = Inr (concat (replicate 135 [0, 0, 0, 0]))"
proof -
  have b: "to_buffer (concat (replicate 135 [Num 0, Num 0, Num 0, Num 0]))
          = concat (replicate 135 [0, 0, 0, 0])"
    by (simp add: to_buffer_def map_concat to_uint8_def)
  have l: "length (concat (replicate 135 [Num 0, Num 0, Num 0, Num 0])) = 540"
    by (simp add: length_concat_replicate)
  have p: "page_bytes (split_on CHR 0x0A skipping_nfc)
             = concat (replicate 135 [Num 0, Num 0, Num 0, Num 0])"
    by (simp only: skipping_nfc_lines skipping_nfc_pages)
  have h: "hd (split_on CHR 0x0A skipping_nfc) = ''Flipper NFC device''"
    by (simp only: skipping_nfc_lines append_Cons list.sel)
  show ?thesis
    by (simp only: parseNFCContent_eq p h l b includes_header) simp
qed

subsection \<open>Where the size is checked\<close>

lemma bytes_to_text_header:
  "bytes_to_text (text_to_bytes ''Flipper NFC device'') = ''Flipper NFC device''"
  by code_simp



lemma file_ext_short_nfc: "file_ext ''short.nfc'' = ''nfc''"
  by (simp add: file_ext_def to_lower_def)

lemma file_ext_short_bin: "file_ext ''short.bin'' = ''bin''"
  by (simp add: file_ext_def to_lower_def)

lemma short_fs_nfc: "short_fs ''short.nfc'' = Some (text_to_bytes ''Flipper NFC device'')"
  by (simp add: short_fs_def)

lemma short_fs_bin: "short_fs ''short.bin'' = Some [1, 2, 3]"
  by (simp add: short_fs_def)

lemma header_only_lines: "split_on CHR 0x0A ''Flipper NFC device'' = [''Flipper NFC device'']"
  by simp

lemma validateBin_bad_size:
  assumes "\<forall>d. readTemplateFile fs filePath = Inr d \<longrightarrow> length d \<noteq> 540"
  shows "validateBin orc keys fs filePath = None"
  using assms by (auto simp: validateBin_def split: option.splits sum.splits)

lemma changeUID_nfc_size:
  assumes "keys \<noteq> None" "file_ext t = ''nfc''" "fs t = Some bytes"
    "includes_str (hd (split_on CHR 0x0A (bytes_to_text bytes))) ''Flipper NFC device''"
    "length (page_bytes (split_on CHR 0x0A (bytes_to_text bytes))) \<noteq> 540"
  shows "changeUID orc keys rnd fs t out cu =
           (Inl (NfcParse (BadNfcSize (length (page_bytes (split_on CHR 0x0A (bytes_to_text bytes)))))), fs)"
  using assms
  by (simp add: changeUID_def readTemplateFile_def parseNFCFile_def parseNFCContent_eq)

lemma readTemplateFile_binary:
  "file_ext t \<noteq> ''nfc'' \<Longrightarrow> fs t = Some d \<Longrightarrow> readTemplateFile fs t = Inr d"
  by (simp add: readTemplateFile_def)

lemma generateFresh_reads_nothing:
  "fst (generateFresh orc keys rnd fs idHex out cu) = fst (generateFresh orc keys rnd fs2 idHex out cu)"
  by (simp add: generateFresh_def Let_def split: sum.splits option.splits)

section \<open>Theorems\<close>

text \<open>
  C1. For a 540-byte file whose signature the oracle rejects, \<open>validateBin\<close> stops
  after the signature check and returns \<open>false\<close>: position 8, password and PACK are
  not computed and no report is returned. Every report that \<open>validateBin\<close> returns
  has \<open>hmacValid\<close> true.
\<close>

theorem C1_rejected_signature_stops:
  "(readTemplateFile fs filePath = Inr fileData \<and> length fileData = 540
      \<and> unpack orc keys (from_buffer fileData) = Some (False, unpacked)
      \<longrightarrow> validateBin orc keys fs filePath = None)
   \<and> (validateBin orc keys fs filePath = Some rep \<longrightarrow> hmacValid rep)"
  using validateBin_rejected[of fs filePath fileData orc keys unpacked]
        validateBin_report_hmac[of orc keys fs filePath rep]
  by blast

theorem C1_rejected_signature_stops_witness:
  "readTemplateFile blank_fs ''template.bin'' = Inr (replicate 540 0)
   \<and> length (replicate 540 (0 :: byte)) = 540
   \<and> unpack rejecting (Some ()) (from_buffer (replicate 540 0))
       = Some (False, tag_to_internal (from_buffer (replicate 540 0)))
   \<and> validateBin rejecting (Some ()) blank_fs ''template.bin'' = None
   \<and> (\<exists>rep. validateBin layout_only (Some ()) blank_fs ''template.bin'' = Some rep
          \<and> hmacValid rep)"
proof -
  have f: "blank_fs ''template.bin'' \<noteq> None" by (simp add: blank_fs_def)
  have l: "length (replicate 540 (0 :: byte)) = 540" by simp
  from validateBin_accepted[OF f read_blank_fs l unpack_layout_only]
  obtain rep where rep: "validateBin layout_only (Some ()) blank_fs ''template.bin'' = Some rep"
    by blast
  from C1_rejected_signature_stops[of blank_fs "''template.bin''" "replicate 540 0" rejecting
         "Some ()" "tag_to_internal (from_buffer (replicate 540 0))"]
       C1_rejected_signature_stops[of blank_fs "''template.bin''" _ layout_only "Some ()" _ rep]
       read_blank_fs unpack_rejecting rep
  show ?thesis by simp
qed

theorem C1_rejected_signature_stops_counterexample:
  "length (replicate 540 (0 :: byte)) = 540
   \<and> readTemplateFile blank_fs ''template.bin'' = Inr (replicate 540 0)
   \<and> map_option fst (unpack rejecting (Some ()) (from_buffer (replicate 540 0))) = Some False
   \<and> validateBin rejecting (Some ()) blank_fs ''template.bin'' = None"
  using validateBin_rejected[OF read_blank_fs unpack_rejecting, of "Some ()"]
  by (simp add: read_blank_fs unpack_rejecting)

text \<open>
  C2. \<open>parseCustomUID\<close> on 14 characters that are not hexadecimal digits: no error
  is raised, the result is an array of seven \<open>NaN\<close>; with a single bad character
  at the end the last byte is parsed from the one digit before it.
\<close>

theorem C2_non_hex_accepted:
  "parseCustomUID ''zzzzzzzzzzzzzz'' = Inr [NaN, NaN, NaN, NaN, NaN, NaN, NaN]
   \<and> parseCustomUID ''0451186d0da09z''
       = Inr [Num 0x04, Num 0x51, Num 0x18, Num 0x6d, Num 0x0d, Num 0xa0, Num 0x09]"
  by (simp add: parseCustomUID_def parseInt16_def is_js_space_def hex_digit_def hex_value_def)

text \<open>
  C3. The password of the packed UID 04 AA BB CC DD EE FF 11 is DD 00 88 AA: the three
  last bytes of the value DD 9E 62 3A given for this example are not what the XOR
  formulas give.
\<close>

theorem C3_pwd_example:
  "calculatePWD [Num 0x04, Num 0xAA, Num 0xBB, Num 0xCC, Num 0xDD, Num 0xEE, Num 0xFF, Num 0x11]
     = [Num 0xDD, Num 0x00, Num 0x88, Num 0xAA]"
  by (simp add: calculatePWD_def js_get_def js_xor_def js_and_def to_int32_def)

theorem C3_pwd_example_counterexample:
  "calculatePWD [Num 0x04, Num 0xAA, Num 0xBB, Num 0xCC, Num 0xDD, Num 0xEE, Num 0xFF, Num 0x11]
     \<noteq> [Num 0xDD, Num 0x9E, Num 0x62, Num 0x3A]"
  by (simp add: calculatePWD_def js_get_def js_xor_def js_and_def to_int32_def)

text \<open>
  C4. Take an oracle that honours its contract: \<open>unpack\<close> returns 540 entries, and
  \<open>pack\<close> of 540 entries returns 540 entries that start with the logical UID block
  (468 to 476). Then every image that \<open>changeUID\<close> or \<open>generateFresh\<close> writes has
  540 bytes, byte 3 is the BCC0 of bytes 0 to 2, byte 8 is the XOR of bytes 4 to 7, bytes
  532 to 536 are the password of the image and bytes 536 to 538 are 80 80. An image written
  by \<open>generateFresh\<close> also has the magic constant at 9 to 17. \<open>changeUID\<close> does not
  write bytes 9 to 17: they are the ones \<open>pack\<close> returned.
\<close>

theorem C4_persisted_invariants:
  assumes dec0: "\<forall>d ok u. unpack orc keys d = Some (ok, u) \<longrightarrow> length u = 540"
    and enc0: "\<forall>l p. length l = 540 \<and> pack orc keys l = Some p
                \<longrightarrow> length p = 540 \<and> slice 0 8 p = slice 468 476 l"
  shows "(persistedImage (changeUID orc keys rnd fs t out cu) out = Some img \<longrightarrow>
            length img = 540
            \<and> img ! 3 = to_uint8 (calculateBCC0 (from_buffer img))
            \<and> img ! 8 = img ! 4 XOR img ! 5 XOR img ! 6 XOR img ! 7
            \<and> slice 532 536 img = to_buffer (calculatePWD (from_buffer img))
            \<and> slice 536 538 img = [0x80, 0x80])
       \<and> (persistedImage (generateFresh orc keys rnd fs idHex out cu) out = Some img' \<longrightarrow>
            length img' = 540
            \<and> img' ! 3 = to_uint8 (calculateBCC0 (from_buffer img'))
            \<and> img' ! 8 = img' ! 4 XOR img' ! 5 XOR img' ! 6 XOR img' ! 7
            \<and> slice 532 536 img' = to_buffer (calculatePWD (from_buffer img'))
            \<and> slice 536 538 img' = [0x80, 0x80]
            \<and> slice 9 17 img' = to_buffer packedMagicBytes)
       \<and> (keys \<noteq> None \<and> readTemplateFile fs t = Inr d
            \<and> unpack orc keys (from_buffer d) = Some (True, u)
            \<and> chooseUID rnd cu = Inr newUID
            \<and> pack orc keys (setUID u newUID (calculateBCC0 newUID)) = Some p \<longrightarrow>
            map_option (slice 9 17) (persistedImage (changeUID orc keys rnd fs t out cu) out)
              = Some (to_buffer (slice 9 17 p)))"
proof -
  have dec: "\<And>d ok u. unpack orc keys d = Some (ok, u) \<Longrightarrow> length u = 540"
    using dec0 by blast
  have enc: "\<And>l p. length l = 540 \<Longrightarrow> pack orc keys l = Some p
                \<Longrightarrow> length p = 540 \<and> slice 0 8 p = slice 468 476 l"
    using enc0 by blast
  show ?thesis
proof (intro conjI impI)
  assume a: "persistedImage (changeUID orc keys rnd fs t out cu) out = Some img"
  then obtain d u newUID p where
        u: "unpack orc keys (from_buffer d) = Some (True, u)"
    and p: "pack orc keys (setUID u newUID (calculateBCC0 newUID)) = Some p"
    and img: "img = to_buffer (changePatched p (slice 84 92 (from_buffer d)))"
    by (rule persistedImage_changeUID_cases)
  let ?l = "setUID u newUID (calculateBCC0 newUID)"
  have ll: "length ?l = 540" using dec[OF u] by (simp add: length_setUID)
  from enc[OF ll p] have lp: "length p = 540" and uid: "slice 0 8 p = slice 468 476 ?l"
    by simp_all
  have l3: "js_get ?l 471 = calculateBCC0 [js_get ?l 468, js_get ?l 469, js_get ?l 470]"
    by (simp add: js_get_setUID calculateBCC0_cong[of newUID])
  from changePatched_invariants[OF lp ll uid l3, of "slice 84 92 (from_buffer d)"]
  have inv: "length img = 540 \<and> img ! 3 = to_uint8 (calculateBCC0 (from_buffer img))
         \<and> img ! 8 = img ! 4 XOR img ! 5 XOR img ! 6 XOR img ! 7
         \<and> slice 532 536 img = to_buffer (calculatePWD (from_buffer img))
         \<and> slice 536 538 img = [0x80, 0x80]"
    by (simp add: img)
  from inv show "length img = 540" by simp
  from inv show "img ! 3 = to_uint8 (calculateBCC0 (from_buffer img))" by simp
  from inv show "img ! 8 = img ! 4 XOR img ! 5 XOR img ! 6 XOR img ! 7" by simp
  from inv show "slice 532 536 img = to_buffer (calculatePWD (from_buffer img))" by simp
  from inv show "slice 536 538 img = [0x80, 0x80]" by simp
next
  assume a: "persistedImage (generateFresh orc keys rnd fs idHex out cu) out = Some img'"
  then obtain newUID p where
        p: "pack orc keys (freshUnpacked newUID idHex) = Some p"
    and img: "img' = to_buffer (freshPatched p)"
    by (rule persistedImage_generateFresh_cases)
  let ?l = "freshUnpacked newUID idHex"
  have ll: "length ?l = 540" by (rule length_freshUnpacked)
  from enc[OF ll p] have lp: "length p = 540" and uid: "slice 0 8 p = slice 468 476 ?l"
    by simp_all
  have l3: "js_get ?l 471 = calculateBCC0 [js_get ?l 468, js_get ?l 469, js_get ?l 470]"
    by (simp add: js_get_freshUnpacked_uid js_get_setUID calculateBCC0_cong[of newUID])
  from freshPatched_invariants[OF lp ll uid l3]
  have inv: "length img' = 540 \<and> img' ! 3 = to_uint8 (calculateBCC0 (from_buffer img'))
         \<and> img' ! 8 = img' ! 4 XOR img' ! 5 XOR img' ! 6 XOR img' ! 7
         \<and> slice 532 536 img' = to_buffer (calculatePWD (from_buffer img'))
         \<and> slice 536 538 img' = [0x80, 0x80]"
    by (simp add: img)
  from inv show "length img' = 540" by simp
  from inv show "img' ! 3 = to_uint8 (calculateBCC0 (from_buffer img'))" by simp
  from inv show "img' ! 8 = img' ! 4 XOR img' ! 5 XOR img' ! 6 XOR img' ! 7" by simp
  from inv show "slice 532 536 img' = to_buffer (calculatePWD (from_buffer img'))" by simp
  from inv show "slice 536 538 img' = [0x80, 0x80]" by simp
  show "slice 9 17 img' = to_buffer packedMagicBytes"
    by (simp add: img freshPatched_magic)
next
  assume a: "keys \<noteq> None \<and> readTemplateFile fs t = Inr d
            \<and> unpack orc keys (from_buffer d) = Some (True, u)
            \<and> chooseUID rnd cu = Inr newUID
            \<and> pack orc keys (setUID u newUID (calculateBCC0 newUID)) = Some p"
  then have run: "persistedImage (changeUID orc keys rnd fs t out cu) out
           = Some (to_buffer (changePatched p (slice 84 92 (from_buffer d))))"
    by (simp add: changeUID_run)
  from a have "length (setUID u newUID (calculateBCC0 newUID)) = 540"
    using dec[of "from_buffer d" True u] by (simp add: length_setUID)
  with a enc have "length p = 540" by blast
  then show "map_option (slice 9 17) (persistedImage (changeUID orc keys rnd fs t out cu) out)
              = Some (to_buffer (slice 9 17 p))"
    by (simp add: run changePatched_9_17)
qed
qed

theorem C4_persisted_invariants_witness:
  "\<exists>img img'.
     persistedImage (changeUID layout_only (Some ()) zero_random blank_fs ''template.bin''
                       ''out.bin'' None) ''out.bin'' = Some img
     \<and> length img = 540
     \<and> img ! 3 = to_uint8 (calculateBCC0 (from_buffer img))
     \<and> img ! 8 = img ! 4 XOR img ! 5 XOR img ! 6 XOR img ! 7
     \<and> slice 532 536 img = to_buffer (calculatePWD (from_buffer img))
     \<and> slice 536 538 img = [0x80, 0x80]
     \<and> persistedImage (generateFresh layout_only (Some ()) zero_random blank_fs
                       ''1919000000090002'' ''out.bin'' None) ''out.bin'' = Some img'
     \<and> length img' = 540
     \<and> img' ! 3 = to_uint8 (calculateBCC0 (from_buffer img'))
     \<and> img' ! 8 = img' ! 4 XOR img' ! 5 XOR img' ! 6 XOR img' ! 7
     \<and> slice 532 536 img' = to_buffer (calculatePWD (from_buffer img'))
     \<and> slice 536 538 img' = [0x80, 0x80]
     \<and> slice 9 17 img' = to_buffer packedMagicBytes
     \<and> readTemplateFile blank_fs ''template.bin'' = Inr (replicate 540 0)
     \<and> unpack layout_only (Some ()) (from_buffer (replicate 540 0))
           = Some (True, replicate 540 (Num 0))
     \<and> chooseUID zero_random None = Inr (generateRandomUID zero_random)
     \<and> map_option (slice 9 17) (persistedImage
           (changeUID layout_only (Some ()) zero_random blank_fs ''template.bin''
              ''out.bin'' None) ''out.bin'')
         = Some (to_buffer (slice 9 17 (internal_to_tag
             (setUID (replicate 540 (Num 0)) (generateRandomUID zero_random)
                (calculateBCC0 (generateRandomUID zero_random))))))"
proof -
  have run: "(Some () :: unit option) \<noteq> None
       \<and> readTemplateFile blank_fs ''template.bin'' = Inr (replicate 540 0)
       \<and> unpack layout_only (Some ()) (from_buffer (replicate 540 0))
             = Some (True, replicate 540 (Num 0))
       \<and> chooseUID zero_random None = Inr (generateRandomUID zero_random)
       \<and> pack layout_only (Some ()) (setUID (replicate 540 (Num 0)) (generateRandomUID zero_random)
                (calculateBCC0 (generateRandomUID zero_random)))
             = Some (internal_to_tag (setUID (replicate 540 (Num 0)) (generateRandomUID zero_random)
                (calculateBCC0 (generateRandomUID zero_random))))"
    by (simp add: read_blank_fs unpack_layout_only pack_layout_only chooseUID_None
                  from_buffer_zeros tag_to_internal_zeros)
  have dec: "\<forall>d ok u. unpack layout_only (Some ()) d = Some (ok, u) \<longrightarrow> length u = 540"
    by (simp add: unpack_layout_only length_tag_to_internal)
  have enc: "\<forall>l p. length l = 540 \<and> pack layout_only (Some ()) l = Some p
                \<longrightarrow> length p = 540 \<and> slice 0 8 p = slice 468 476 l"
    by (auto simp: pack_layout_only length_internal_to_tag internal_to_tag_uid)
  from C4_persisted_invariants[of layout_only "Some ()" zero_random blank_fs "''template.bin''"
          "''out.bin''" None _ "''1919000000090002''" _ "replicate 540 0"
          "replicate 540 (Num 0)" "generateRandomUID zero_random"
          "internal_to_tag (setUID (replicate 540 (Num 0)) (generateRandomUID zero_random)
                (calculateBCC0 (generateRandomUID zero_random)))", OF dec enc]
       blank_change_run blank_fresh_run run
  show ?thesis by blast
qed

theorem C4_persisted_invariants_counterexample:
  "map_option (slice 9 17)
     (persistedImage (changeUID layout_only (Some ()) zero_random blank_fs ''template.bin''
                        ''out.bin'' None) ''out.bin'')
     = Some [0, 0, 0, 0, 0, 0, 0, 0]
   \<and> to_buffer packedMagicBytes \<noteq> [0, 0, 0, 0, 0, 0, 0, 0]"
proof -
  have "17 \<le> length (internal_to_tag (setUID (replicate 540 (Num 0))
           (generateRandomUID zero_random) (calculateBCC0 (generateRandomUID zero_random))))"
    by (simp add: length_internal_to_tag)
  then have "slice 9 17 (to_buffer (changePatched
          (internal_to_tag (setUID (replicate 540 (Num 0)) (generateRandomUID zero_random)
             (calculateBCC0 (generateRandomUID zero_random))))
          (slice 84 92 (replicate 540 (Num 0)))))
        = to_buffer [Num 0, Num 0, Num 0, Num 0, Num 0, Num 0, Num 0, Num 0]"
    by (simp add: changePatched_9_17 blank_run_9_17)
  then have "map_option (slice 9 17)
     (persistedImage (changeUID layout_only (Some ()) zero_random blank_fs ''template.bin''
                        ''out.bin'' None) ''out.bin'')
     = Some [0, 0, 0, 0, 0, 0, 0, 0]"
    by (simp add: blank_change_run) (simp add: to_buffer_def to_uint8_def)
  moreover have "to_buffer packedMagicBytes \<noteq> [0, 0, 0, 0, 0, 0, 0, 0]"
    by (simp add: to_buffer_def to_uint8_def packedMagicBytes_def)
  ultimately show ?thesis by simp
qed

text \<open>
  C5. Whatever the oracle does, the image that \<open>changeUID\<close> writes has at 84 to 92 the
  bytes 84 to 92 of the template as the adapter read it, for a template that has these
  bytes (92 bytes or more).
\<close>

theorem C5_character_id_preserved:
  assumes "persistedImage (changeUID orc keys rnd fs t out cu) out = Some img"
    and "readTemplateFile fs t = Inr template"
    and "92 \<le> length template"
  shows "slice 84 92 img = slice 84 92 template"
proof -
  from assms(1) obtain d p where d: "readTemplateFile fs t = Inr d"
    and img: "img = to_buffer (changePatched p (slice 84 92 (from_buffer d)))"
    by (rule persistedImage_changeUID_cases)
  from d assms(2) have dt: "d = template" by simp
  let ?ids = "slice 84 92 (from_buffer template)"
  let ?P = "changePatched p ?ids"
  have len: "92 \<le> length img"
    by (simp add: img dt length_to_buffer length_changePatched)
  have ids: "\<And>k. k < 8 \<Longrightarrow> js_get ?ids k = Num (uint (template ! (84 + k)))"
    using assms(3) by (simp add: js_get_def slice_def from_buffer_def)
  have nth: "\<And>j. 84 \<le> j \<Longrightarrow> j < 92 \<Longrightarrow> img ! j = template ! j"
  proof -
    fix j :: nat assume j: "84 \<le> j" "j < 92"
    then have "img ! j = to_uint8 (js_get ?P j)"
      by (simp add: img dt nth_to_buffer length_changePatched)
    also have "\<dots> = to_uint8 (js_get ?ids (j - 84))"
      using j by (simp add: js_get_changePatched Let_def)
    also have "\<dots> = template ! j"
      using j by (simp add: ids to_uint8_Num_uint)
    finally show "img ! j = template ! j" .
  qed
  show ?thesis
    using len assms(3) by (simp add: slice_nth upt_84_92 nth)
qed

theorem C5_character_id_preserved_witness:
  "\<exists>img. persistedImage (changeUID layout_only (Some ()) zero_random mario_fs ''mario.bin''
                  ''out.bin'' (Some ''0451186d0da09e'')) ''out.bin'' = Some img
     \<and> readTemplateFile mario_fs ''mario.bin'' = Inr mario_template
     \<and> 92 \<le> length mario_template
     \<and> slice 84 92 img = [0x00, 0x00, 0x00, 0x00, 0x00, 0x34, 0x01, 0x02]"
proof -
  have uid: "chooseUID zero_random (Some ''0451186d0da09e'') = Inr (parse_pairs ''0451186d0da09e'')"
    by (simp add: chooseUID_def parseCustomUID_def)
  have k: "(Some () :: unit option) \<noteq> None" by simp
  let ?img = "to_buffer (changePatched
      (internal_to_tag (setUID (tag_to_internal (from_buffer mario_template))
         (parse_pairs ''0451186d0da09e'') (calculateBCC0 (parse_pairs ''0451186d0da09e''))))
      (slice 84 92 (from_buffer mario_template)))"
  have run: "persistedImage (changeUID layout_only (Some ()) zero_random mario_fs ''mario.bin''
                  ''out.bin'' (Some ''0451186d0da09e'')) ''out.bin'' = Some ?img"
    by (rule changeUID_run[OF k read_mario_fs unpack_layout_only uid pack_layout_only])
  have len: "92 \<le> length mario_template"
    by (simp add: length_mario_template)
  have "slice 84 92 mario_template = [0x00, 0x00, 0x00, 0x00, 0x00, 0x34, 0x01, 0x02]"
    by (simp add: slice_def mario_template_def)
  with C5_character_id_preserved[OF run read_mario_fs len] run read_mario_fs len
  show ?thesis by simp
qed

text \<open>
  C6. When \<open>changeUID\<close> or \<open>generateFresh\<close> fails with any error raised before the
  write (a custom UID or a character id of the wrong length, a rejected signature, missing
  keys, an unreadable template, an exception of the oracle), the file system is unchanged.
\<close>

theorem C6_errors_write_nothing:
  "(fst (changeUID orc keys rnd fs t out cu) = Inl e \<and> e \<noteq> LogTypeError
      \<longrightarrow> snd (changeUID orc keys rnd fs t out cu) = fs)
   \<and> (fst (generateFresh orc keys rnd fs idHex out cu) = Inl e' \<and> e' \<noteq> LogTypeError
      \<longrightarrow> snd (generateFresh orc keys rnd fs idHex out cu) = fs)"
  using changeUID_unchanged[of orc keys rnd fs t out cu]
        generateFresh_unchanged[of orc keys rnd fs idHex out cu]
  by (auto simp: persisted_def)

theorem C6_errors_write_nothing_witness:
  "fst (changeUID rejecting (Some ()) zero_random blank_fs ''template.bin'' ''out.bin''
          (Some ''0451'')) = Inl BadHmac
   \<and> BadHmac \<noteq> LogTypeError
   \<and> snd (changeUID rejecting (Some ()) zero_random blank_fs ''template.bin'' ''out.bin''
          (Some ''0451'')) = blank_fs
   \<and> fst (generateFresh rejecting (Some ()) zero_random blank_fs ''1919000000090002''
          ''out.bin'' (Some ''0451'')) = Inl BadUidLength
   \<and> BadUidLength \<noteq> LogTypeError
   \<and> snd (generateFresh rejecting (Some ()) zero_random blank_fs ''1919000000090002''
          ''out.bin'' (Some ''0451'')) = blank_fs"
proof -
  have a: "fst (changeUID rejecting (Some ()) zero_random blank_fs ''template.bin'' ''out.bin''
          (Some ''0451'')) = Inl BadHmac"
    by (simp add: changeUID_def read_blank_fs unpack_rejecting)
  have b: "fst (generateFresh rejecting (Some ()) zero_random blank_fs ''1919000000090002''
          ''out.bin'' (Some ''0451'')) = Inl BadUidLength"
    by (simp add: generateFresh_def chooseUID_def parse_0451)
  from C6_errors_write_nothing[of rejecting "Some ()" zero_random blank_fs "''template.bin''"
         "''out.bin''" "Some ''0451''" BadHmac "''1919000000090002''" BadUidLength] a b
  show ?thesis by simp
qed

text \<open>
  C7. The text adapter fails with the format error exactly when the first line lacks the
  device-header marker, and with the size error exactly when the header is there and the
  page lines that match the grammar do not give 540 bytes. A line that starts like a page
  line but does not match the grammar is skipped: it gives no bytes and by itself makes
  nothing fail.
\<close>

theorem C7_text_adapter_failures:
  "(parseNFCContent content = Inl NotFlipperFile
      \<longleftrightarrow> \<not> includes_str (hd (split_on CHR 0x0A content)) ''Flipper NFC device'')
   \<and> (parseNFCContent content = Inl (BadNfcSize n)
      \<longleftrightarrow> includes_str (hd (split_on CHR 0x0A content)) ''Flipper NFC device''
          \<and> n = length (page_bytes (split_on CHR 0x0A content)) \<and> n \<noteq> 540)
   \<and> parseNFCContent content \<noteq> Inl NfcReadFailed
   \<and> (starts_with line ''Page '' \<and> match_page line = None
      \<longrightarrow> page_bytes (line # ls) = page_bytes ls)"
  by (auto simp: parseNFCContent_eq simp del: match_page.simps)

theorem C7_text_adapter_failures_witness:
  "starts_with ''Page x'' ''Page '' \<and> match_page ''Page x'' = None
   \<and> page_bytes (''Page x'' # replicate 135 ''Page 0: 00 00 00 00'')
       = page_bytes (replicate 135 ''Page 0: 00 00 00 00'')
   \<and> parseNFCContent ''Page 0: 00 00 00 00'' = Inl NotFlipperFile
   \<and> parseNFCContent ''Flipper NFC device'' = Inl (BadNfcSize 0)"
proof -
  have a: "\<not> includes_str (hd (split_on CHR 0x0A ''Page 0: 00 00 00 00'')) ''Flipper NFC device''"
    by (simp add: starts_with_def)
  have b: "includes_str (hd (split_on CHR 0x0A ''Flipper NFC device'')) ''Flipper NFC device''"
    by (simp add: starts_with_def)
  have c: "(0::nat) = length (page_bytes (split_on CHR 0x0A ''Flipper NFC device''))"
    by (simp add: starts_with_def)
  from C7_text_adapter_failures[of "''Page 0: 00 00 00 00''" _ "''Page x''"
         "replicate 135 ''Page 0: 00 00 00 00''"]
       C7_text_adapter_failures[of "''Flipper NFC device''" 0]
       starts_bad_line match_bad_line a b c
  show ?thesis by (simp del: match_page.simps page_bytes.simps split_on.simps includes_str.simps)
qed

theorem C7_text_adapter_failures_counterexample:
  "starts_with ''Page x'' ''Page ''
   \<and> match_page ''Page x'' = None
   \<and> ''Page x'' \<in> set (split_on CHR 0x0A skipping_nfc)
   \<and> parseNFCContent skipping_nfc = Inr (concat (replicate 135 [0, 0, 0, 0]))"
  using starts_bad_line match_bad_line skipping_nfc_parses
  by (simp only: skipping_nfc_lines) simp

text \<open>
  C8. \<open>validateBin\<close> returns \<open>false\<close> for every file that the adapter does not
  turn into exactly 540 bytes. In \<open>changeUID\<close> the text adapter checks the size when it
  reads: a template with the header whose page lines do not give 540 bytes fails with the
  size error and nothing is written. A binary template of any length is handed to the
  oracle unchecked, and is written when the oracle accepts it. \<open>generateFresh\<close> reads no
  file: its result does not depend on the file system.
\<close>

theorem C8_size_checks:
  "((\<forall>d. readTemplateFile fs filePath = Inr d \<longrightarrow> length d \<noteq> 540)
      \<longrightarrow> validateBin orc keys fs filePath = None)
   \<and> (keys \<noteq> None \<and> file_ext t = ''nfc'' \<and> fs t = Some bytes
        \<and> includes_str (hd (split_on CHR 0x0A (bytes_to_text bytes))) ''Flipper NFC device''
        \<and> length (page_bytes (split_on CHR 0x0A (bytes_to_text bytes))) \<noteq> 540
      \<longrightarrow> changeUID orc keys rnd fs t out cu =
            (Inl (NfcParse (BadNfcSize
               (length (page_bytes (split_on CHR 0x0A (bytes_to_text bytes)))))), fs))
   \<and> (keys \<noteq> None \<and> file_ext t' \<noteq> ''nfc'' \<and> fs t' = Some d'
        \<and> unpack orc keys (from_buffer d') = Some (True, u)
        \<and> chooseUID rnd cu = Inr newUID
        \<and> pack orc keys (setUID u newUID (calculateBCC0 newUID)) = Some p
      \<longrightarrow> persistedImage (changeUID orc keys rnd fs t' out cu) out
            = Some (to_buffer (changePatched p (slice 84 92 (from_buffer d')))))
   \<and> fst (generateFresh orc keys rnd fs idHex out cu)
       = fst (generateFresh orc keys rnd fs2 idHex out cu)"
  using validateBin_bad_size[of fs filePath orc keys]
        changeUID_nfc_size[of keys t fs bytes orc rnd out cu]
        changeUID_run[of keys fs t' d' orc u rnd cu newUID p out]
        readTemplateFile_binary[of t' fs d']
        generateFresh_reads_nothing[of orc keys rnd fs idHex out cu fs2]
  by blast

theorem C8_size_checks_witness:
  "readTemplateFile short_fs ''short.bin'' = Inr [1, 2, 3]
   \<and> length [1, 2, 3 :: byte] \<noteq> 540
   \<and> validateBin layout_only (Some ()) short_fs ''short.bin'' = None
   \<and> file_ext ''short.nfc'' = ''nfc''
   \<and> changeUID layout_only (Some ()) zero_random short_fs ''short.nfc'' ''out.bin'' None
       = (Inl (NfcParse (BadNfcSize 0)), short_fs)
   \<and> file_ext ''short.bin'' \<noteq> ''nfc''
   \<and> short_fs ''short.bin'' = Some [1, 2, 3]
   \<and> persistedImage (changeUID layout_only (Some ()) zero_random short_fs ''short.bin''
         ''out.bin'' None) ''out.bin''
       = Some (to_buffer (changePatched
           (internal_to_tag (setUID (tag_to_internal (from_buffer [1, 2, 3]))
              (generateRandomUID zero_random) (calculateBCC0 (generateRandomUID zero_random))))
           (slice 84 92 (from_buffer [1, 2, 3]))))"
proof -
  have a: "\<forall>d. readTemplateFile short_fs ''short.bin'' = Inr d \<longrightarrow> length d \<noteq> 540"
    by (simp add: readTemplateFile_def file_ext_short_bin short_fs_bin)
  have k: "(Some () :: unit option) \<noteq> None" by simp
  have h: "includes_str (hd (split_on CHR 0x0A (bytes_to_text (text_to_bytes ''Flipper NFC device''))))
             ''Flipper NFC device''"
    by (simp only: bytes_to_text_header header_only_lines list.sel includes_header)
  have n: "length (page_bytes (split_on CHR 0x0A (bytes_to_text (text_to_bytes ''Flipper NFC device'')))) = 0"
    by (simp only: bytes_to_text_header header_only_lines page_bytes_header list.size)
  have e: "file_ext ''short.bin'' \<noteq> ''nfc''" by (simp add: file_ext_short_bin)
  from C8_size_checks[of short_fs "''short.bin''" layout_only "Some ()" "''short.nfc''"
         "text_to_bytes ''Flipper NFC device''" zero_random "''out.bin''" None
         "''short.bin''" "[1, 2, 3]" "tag_to_internal (from_buffer [1, 2, 3])"
         "generateRandomUID zero_random"
         "internal_to_tag (setUID (tag_to_internal (from_buffer [1, 2, 3]))
              (generateRandomUID zero_random) (calculateBCC0 (generateRandomUID zero_random)))"]
       a k h n e file_ext_short_nfc short_fs_nfc short_fs_bin
       readTemplateFile_binary[of "''short.bin''" short_fs "[1, 2, 3]", OF e short_fs_bin]
       unpack_layout_only[of "Some ()" "from_buffer [1, 2, 3]"]
       pack_layout_only[of "Some ()"] chooseUID_None[of zero_random]
  show ?thesis by simp
qed

theorem C8_size_checks_counterexample:
  "file_ext ''short.nfc'' = ''nfc''
   \<and> changeUID layout_only (Some ()) zero_random short_fs ''short.nfc'' ''out.bin'' None
       = (Inl (NfcParse (BadNfcSize 0)), short_fs)"
proof -
  have k: "(Some () :: unit option) \<noteq> None" by simp
  have h: "includes_str (hd (split_on CHR 0x0A (bytes_to_text (text_to_bytes ''Flipper NFC device''))))
             ''Flipper NFC device''"
    by (simp only: bytes_to_text_header header_only_lines list.sel includes_header)
  have n: "length (page_bytes (split_on CHR 0x0A (bytes_to_text (text_to_bytes ''Flipper NFC device'')))) = 0"
    by (simp only: bytes_to_text_header header_only_lines page_bytes_header list.size)
  have n': "length (page_bytes (split_on CHR 0x0A (bytes_to_text (text_to_bytes ''Flipper NFC device'')))) \<noteq> 540"
    unfolding n by simp
  from changeUID_nfc_size[of "Some ()" "''short.nfc''" short_fs
         "text_to_bytes ''Flipper NFC device''" layout_only zero_random "''out.bin''" None,
         OF k file_ext_short_nfc short_fs_nfc h n']
  show ?thesis by (simp only: n file_ext_short_nfc)
qed

text \<open>
  C9. \<open>generateFresh\<close> with character id 1919000000090002 and custom UID
  0451186d0da09e, under an oracle whose packed image carries the logical UID block
  (468 to 476) at 0 to 8 and the logical character id (476 to 484) at 84 to 92: the
  written image starts with 04 51 18 bcc0 6d 0d a0 9e, where bcc0 is
  04 XOR 51 XOR 18 XOR 88, and its bytes 84 to 92 print as 1919000000090002.
\<close>

theorem C9_fresh_scenario:
  assumes keys: "keys \<noteq> None"
    and p: "pack orc keys (freshUnpacked (parse_pairs ''0451186d0da09e'') ''1919000000090002'')
              = Some p"
    and uid: "slice 0 8 p
              = slice 468 476 (freshUnpacked (parse_pairs ''0451186d0da09e'') ''1919000000090002'')"
    and cid: "slice 84 92 p
              = slice 476 484 (freshUnpacked (parse_pairs ''0451186d0da09e'') ''1919000000090002'')"
  shows "\<exists>img. persistedImage (generateFresh orc keys rnd fs ''1919000000090002'' out
                    (Some ''0451186d0da09e'')) out = Some img
           \<and> slice 0 8 img = [0x04, 0x51, 0x18, 0x04 XOR 0x51 XOR 0x18 XOR 0x88,
                               0x6d, 0x0d, 0xa0, 0x9e]
           \<and> slice 84 92 img = [0x19, 0x19, 0x00, 0x00, 0x00, 0x09, 0x00, 0x02]
           \<and> concat (map js_hex2 (from_buffer (slice 84 92 img))) = ''1919000000090002''"
proof -
  let ?uid = "parse_pairs ''0451186d0da09e''"
  let ?l = "freshUnpacked ?uid ''1919000000090002''"
  let ?img = "to_buffer (freshPatched p)"
  have choose: "chooseUID rnd (Some ''0451186d0da09e'') = Inr ?uid"
    by (simp add: chooseUID_def parseCustomUID_def)
  have run: "persistedImage (generateFresh orc keys rnd fs ''1919000000090002'' out
                    (Some ''0451186d0da09e'')) out = Some ?img"
    using generateFresh_run[OF keys choose _ p, of fs out] by simp
  have ublock: "slice 468 476 ?l =
      [Num 0x04, Num 0x51, Num 0x18, Num 0xC5, Num 0x6d, Num 0x0d, Num 0xa0, Num 0x9e]"
    unfolding freshUnpacked_uid_block parse_uid_example
    by (simp add: js_get_def calculateBCC0_def js_xor_def to_int32_def)
  have iblock: "slice 476 484 ?l =
      [Num 0x19, Num 0x19, Num 0, Num 0, Num 0, Num 0x09, Num 0, Num 0x02]"
    unfolding freshUnpacked_id_block parse_id_example
    by (simp add: upt_0_8 js_get_def)
  have l8: "8 \<le> length p"
    by (rule length_ge_of_slice[OF uid]) (simp_all add: length_slice length_freshUnpacked)
  have l92: "92 \<le> length p"
    by (rule length_ge_of_slice[OF cid]) (simp_all add: length_slice length_freshUnpacked)
  have a: "slice 0 8 ?img = to_buffer (slice 0 8 p)"
    using l8 by (simp add: freshPatched_slices slice_eq_map_get)
  have b: "slice 84 92 ?img = to_buffer (slice 84 92 p)"
    using l92 by (simp add: freshPatched_slices slice_eq_map_get)
  have a': "slice 0 8 ?img = [0x04, 0x51, 0x18, 0x04 XOR 0x51 XOR 0x18 XOR 0x88,
                               0x6d, 0x0d, 0xa0, 0x9e]"
    unfolding a uid ublock by (simp add: to_buffer_def to_uint8_def)
  have b': "slice 84 92 ?img = [0x19, 0x19, 0x00, 0x00, 0x00, 0x09, 0x00, 0x02]"
    unfolding b cid iblock by (simp add: to_buffer_def to_uint8_def)
  have c: "concat (map js_hex2 (from_buffer (slice 84 92 ?img))) = ''1919000000090002''"
    by (simp add: b' from_buffer_def js_hex2_def)
  from run a' b' c show ?thesis by blast
qed

theorem C9_fresh_scenario_witness:
  "\<exists>img. persistedImage (generateFresh layout_only (Some ()) zero_random blank_fs
              ''1919000000090002'' ''out.bin'' (Some ''0451186d0da09e'')) ''out.bin'' = Some img
     \<and> slice 0 8 img = [0x04, 0x51, 0x18, 0xC5, 0x6d, 0x0d, 0xa0, 0x9e]
     \<and> slice 84 92 img = [0x19, 0x19, 0x00, 0x00, 0x00, 0x09, 0x00, 0x02]
     \<and> concat (map js_hex2 (from_buffer (slice 84 92 img))) = ''1919000000090002''"
proof -
  let ?l = "freshUnpacked (parse_pairs ''0451186d0da09e'') ''1919000000090002''"
  have k: "(Some () :: unit option) \<noteq> None" by simp
  have ll: "length ?l = 540" by (rule length_freshUnpacked)
  from C9_fresh_scenario[OF k pack_layout_only internal_to_tag_uid[OF ll]
         internal_to_tag_id[OF ll], of zero_random blank_fs "''out.bin''"]
  show ?thesis by simp
qed

text \<open>
  C10. With keys loaded, \<open>validateFiles\<close> returns one entry per input path, in the
  order of the inputs; the number of valid files and the number of invalid files add up to
  the total, which is the number of paths, and the valid files are those whose report says
  valid.
\<close>

theorem C10_batch_counts:
  assumes "keys \<noteq> None"
  shows "\<exists>b. validateFiles orc keys fs filePaths = Inr b
           \<and> map fst (results b) = filePaths
           \<and> length (results b) = length filePaths
           \<and> validFiles b + invalidFiles b = totalFiles b
           \<and> totalFiles b = length filePaths
           \<and> validFiles b = length (filter (\<lambda>p. case validateBin orc keys fs p of
                                                   None \<Rightarrow> False | Some rep \<Rightarrow> valid rep) filePaths)"
proof -
  let ?rs = "map (\<lambda>filePath. (filePath, validateBin orc keys fs filePath)) filePaths"
  let ?ok = "\<lambda>r :: string \<times> report option. case snd r of None \<Rightarrow> False | Some rep \<Rightarrow> valid rep"
  have le: "length (filter ?ok ?rs) \<le> length ?rs" by (rule length_filter_le)
  have m: "map fst ?rs = filePaths" by (simp add: comp_def)
  have f: "length (filter ?ok ?rs) = length (filter (\<lambda>p. case validateBin orc keys fs p of
                                                   None \<Rightarrow> False | Some rep \<Rightarrow> valid rep) filePaths)"
    by (simp add: filter_map comp_def)
  show ?thesis
    using assms le m f by (simp add: validateFiles_def Let_def)
qed

theorem C10_batch_counts_witness:
  "(Some () :: unit option) \<noteq> None
   \<and> (\<exists>b. validateFiles layout_only (Some ()) blank_fs [''template.bin'', ''missing.bin''] = Inr b
           \<and> map fst (results b) = [''template.bin'', ''missing.bin'']
           \<and> length (results b) = 2
           \<and> validFiles b + invalidFiles b = totalFiles b
           \<and> totalFiles b = 2)"
proof -
  have k: "(Some () :: unit option) \<noteq> None" by simp
  from C10_batch_counts[OF k, of layout_only blank_fs "[''template.bin'', ''missing.bin'']"]
  show ?thesis by auto
qed

end
